theory Spec2Isabelle
  imports Main
begin


section \<open>Strings, escape sequences and colour helpers\<close>

text \<open>
  A JavaScript string is modelled by the bytes of its UTF-8 encoding, which is what
  \<^verbatim>\<open>process.stderr.write\<close> and \<^verbatim>\<open>process.stdout.write\<close> put on the stream.
  Concatenation, joining and the replacement of an ASCII character commute with that
  encoding. The three non-ASCII glyphs of the source are written out as bytes.
\<close>

definition ESC :: char where
  "ESC = CHR 0x1B"

definition NL :: char where
  "NL = CHR 0x0A"

definition CR :: char where
  "CR = CHR 0x0D"

text \<open>\<^verbatim>\<open>_color(open, close)\<close> returns the function that wraps a string.\<close>

definition color :: "string \<Rightarrow> string \<Rightarrow> string \<Rightarrow> string" where
  "color opn cls s = opn @ s @ cls"

definition c_bold :: "string \<Rightarrow> string" where
  "c_bold = color (ESC # ''[1m'') (ESC # ''[22m'')"

definition c_dim :: "string \<Rightarrow> string" where
  "c_dim = color (ESC # ''[2m'') (ESC # ''[22m'')"

definition c_red :: "string \<Rightarrow> string" where
  "c_red = color (ESC # ''[31m'') (ESC # ''[39m'')"

definition c_green :: "string \<Rightarrow> string" where
  "c_green = color (ESC # ''[32m'') (ESC # ''[39m'')"

definition c_yellow :: "string \<Rightarrow> string" where
  "c_yellow = color (ESC # ''[33m'') (ESC # ''[39m'')"

definition c_cyan :: "string \<Rightarrow> string" where
  "c_cyan = color (ESC # ''[36m'') (ESC # ''[39m'')"

definition c_gray :: "string \<Rightarrow> string" where
  "c_gray = color (ESC # ''[90m'') (ESC # ''[39m'')"

text \<open>\<^verbatim>\<open>Array.prototype.join\<close>.\<close>

fun js_join :: "string \<Rightarrow> string list \<Rightarrow> string" where
  "js_join sep [] = []"
| "js_join sep [x] = x"
| "js_join sep (x # y # ys) = x @ sep @ js_join sep (y # ys)"

text \<open>The pointer glyph U+203A and the two arrows U+2191, U+2193 of the hint line.\<close>

definition pointer_glyph :: string where
  "pointer_glyph = [CHR 0xE2, CHR 0x80, CHR 0xBA]"

definition hint :: string where
  "hint = c_dim ([CHR 0xE2, CHR 0x86, CHR 0x91] @ ''/'' @ [CHR 0xE2, CHR 0x86, CHR 0x93]
            @ '' to move, Enter to confirm, Esc to cancel'')"

text \<open>The sequence \<^verbatim>\<open>clearLines\<close> writes once per line: cursor up one line, erase the line.\<close>

definition clear_seq :: string where
  "clear_seq = ESC # ''[1A'' @ ESC # ''[2K''"

section \<open>JavaScript numbers as far as the selector uses them\<close>

text \<open>
  The selected index is an integer as long as the item list is not empty; the remainder
  by a length of zero is \<^verbatim>\<open>NaN\<close>. The \<^verbatim>\<open>%\<close> operator truncates towards zero.
\<close>

datatype jsnum = Num int | NaN

definition js_rem :: "int \<Rightarrow> int \<Rightarrow> jsnum" where
  "js_rem a b = (if b = 0 then NaN else Num (sgn a * (\<bar>a\<bar> mod \<bar>b\<bar>)))"

section \<open>The interactive list selector\<close>

text \<open>
  What the promise of \<^verbatim>\<open>selectMenuInteractively\<close> resolves with: an item (a string),
  \<^verbatim>\<open>null\<close>, or \<^verbatim>\<open>undefined\<close> when \<^verbatim>\<open>items[idx]\<close> reads outside the array.
\<close>

datatype SelectionResult = Picked string | Cancelled | Undefined

text \<open>
  Every call the selector and the commands make on the outside world, in the order made.
\<close>

datatype effect =
    OpenTty
  | ConsoleError string
  | ConsoleLog string
  | StderrWrite string
  | StdoutWrite string
  | EmitKeypressEvents
  | SetRawMode bool
  | Resume
  | Pause
  | ListenOn
  | ListenOff
  | Destroy
  | Resolve SelectionResult
  | MkDir string
  | WriteFile string string
  | Rename string string
  | Exit nat
  | Throw

text \<open>A key event as \<^verbatim>\<open>readline\<close> delivers it: \<^verbatim>\<open>key.name\<close> (possibly undefined) and \<^verbatim>\<open>key.ctrl\<close>.\<close>

record key =
  name :: "string option"
  ctrl :: bool

text \<open>
  The variables captured by the closures of \<^verbatim>\<open>selectMenuInteractively\<close>, the state of
  the input stream they act on, the settled value of the promise, and the trace of effects.
\<close>

record MenuState =
  items :: "string list"
  hdr :: string
  idx :: jsnum
  renderedLines :: nat
  needClose :: bool
  isTTY :: bool
  rawMode :: bool
  listening :: bool
  flowing :: bool
  destroyed :: bool
  resolved :: "SelectionResult option"
  trace :: "effect list"

definition emit :: "effect \<Rightarrow> MenuState \<Rightarrow> MenuState" where
  "emit e s = s\<lparr>trace := trace s @ [e]\<rparr>"

definition writeStderr :: "string \<Rightarrow> MenuState \<Rightarrow> MenuState" where
  "writeStderr str s = emit (StderrWrite str) s"

fun clearLines :: "nat \<Rightarrow> MenuState \<Rightarrow> MenuState" where
  "clearLines 0 s = s"
| "clearLines (Suc n) s = clearLines n (writeStderr clear_seq s)"

text \<open>One line of the block per item; \<^verbatim>\<open>i === idx\<close> decides the marking.\<close>

definition item_line :: "jsnum \<Rightarrow> nat \<Rightarrow> string \<Rightarrow> string" where
  "item_line sel i label =
     (if sel = Num (int i)
      then '' '' @ c_green pointer_glyph @ '' '' @ c_green (c_bold label)
      else '' '' @ '' '' @ '' '' @ label)"

fun item_lines :: "jsnum \<Rightarrow> nat \<Rightarrow> string list \<Rightarrow> string list" where
  "item_lines sel i [] = []"
| "item_lines sel i (x # xs) = item_line sel i x # item_lines sel (Suc i) xs"

definition block_lines :: "MenuState \<Rightarrow> string list" where
  "block_lines s = hdr s # item_lines (idx s) 0 (items s) @ [hint]"

definition render :: "MenuState \<Rightarrow> MenuState" where
  "render s =
     (let lns = block_lines s;
          s1 = (if renderedLines s > 0 then clearLines (renderedLines s) s else s);
          s2 = writeStderr (js_join [NL] lns @ [NL]) s1
      in s2\<lparr>renderedLines := length lns\<rparr>)"

definition cleanup :: "MenuState \<Rightarrow> MenuState" where
  "cleanup s =
     (if renderedLines s > 0
      then (clearLines (renderedLines s) s)\<lparr>renderedLines := 0\<rparr>
      else s)"

text \<open>
  \<^verbatim>\<open>stop\<close>: each call sits in its own try/catch, so all of them are made; the stream is
  destroyed only when the selector opened it.
\<close>

definition stop :: "MenuState \<Rightarrow> MenuState" where
  "stop s =
     (let s1 = (emit ListenOff s)\<lparr>listening := False\<rparr>;
          s2 = (emit (SetRawMode False) s1)\<lparr>rawMode := False\<rparr>;
          s3 = (emit Pause s2)\<lparr>flowing := False\<rparr>
      in if needClose s3 then (emit Destroy s3)\<lparr>destroyed := True\<rparr> else s3)"

text \<open>A promise settles once: a later \<^verbatim>\<open>resolve\<close> changes nothing.\<close>

definition resolve :: "SelectionResult \<Rightarrow> MenuState \<Rightarrow> MenuState" where
  "resolve r s =
     (let s1 = emit (Resolve r) s
      in case resolved s1 of None \<Rightarrow> s1\<lparr>resolved := Some r\<rparr> | Some _ \<Rightarrow> s1)"

definition item_at :: "string list \<Rightarrow> jsnum \<Rightarrow> SelectionResult" where
  "item_at xs j =
     (case j of
        NaN \<Rightarrow> Undefined
      | Num i \<Rightarrow> if 0 \<le> i \<and> i < int (length xs) then Picked (xs ! nat i) else Undefined)"

definition step_up :: "jsnum \<Rightarrow> int \<Rightarrow> jsnum" where
  "step_up j n = (case j of NaN \<Rightarrow> NaN | Num i \<Rightarrow> js_rem (i - 1 + n) n)"

definition step_down :: "jsnum \<Rightarrow> int \<Rightarrow> jsnum" where
  "step_down j n = (case j of NaN \<Rightarrow> NaN | Num i \<Rightarrow> js_rem (i + 1) n)"

definition onKeypress :: "key option \<Rightarrow> MenuState \<Rightarrow> MenuState" where
  "onKeypress ev s =
     (case ev of
        None \<Rightarrow> s
      | Some k \<Rightarrow>
          if name k = Some ''up''
          then render (s\<lparr>idx := step_up (idx s) (int (length (items s)))\<rparr>)
          else if name k = Some ''down''
          then render (s\<lparr>idx := step_down (idx s) (int (length (items s)))\<rparr>)
          else if name k = Some ''return'' \<or> name k = Some ''enter''
          then (let s1 = stop (cleanup s) in resolve (item_at (items s1) (idx s1)) s1)
          else if name k = Some ''escape'' \<or> (name k = Some ''c'' \<and> ctrl k)
          then resolve Cancelled (stop (cleanup s))
          else s)"

text \<open>
  The environment of one invocation: whether standard input is a terminal, and whether
  \<^verbatim>\<open>fs.openSync("/dev/tty", "r")\<close> succeeds. The stream constructor on the descriptor
  of a terminal is taken not to throw, so the catch branch is the failed open.
\<close>

record tty_env =
  stdinIsTTY :: bool
  ttyOpens :: bool

definition non_interactive_msg :: string where
  "non_interactive_msg = c_red ''Non-interactive environment. Use command form instead.''"

definition init_state :: "string list \<Rightarrow> string \<Rightarrow> int \<Rightarrow> bool \<Rightarrow> effect list \<Rightarrow> MenuState" where
  "init_state xs title initialIndex nc tr =
     \<lparr> items = xs,
       hdr = c_cyan (c_bold title),
       idx = Num (max 0 (min initialIndex (max (int (length xs) - 1) 0))),
       renderedLines = 0,
       needClose = nc,
       isTTY = True,
       rawMode = False,
       listening = False,
       flowing = False,
       destroyed = False,
       resolved = None,
       trace = tr \<rparr>"

text \<open>
  The body of the promise up to the first render. When standard input is no terminal and
  the open throws, the catch branch reports and resolves with \<^verbatim>\<open>null\<close>; nothing else
  runs. Otherwise the input is a terminal: standard input itself, or the stream just opened.
\<close>

definition selectMenuInteractively :: "tty_env \<Rightarrow> string list \<Rightarrow> string \<Rightarrow> int \<Rightarrow> MenuState" where
  "selectMenuInteractively env xs title initialIndex =
     (if \<not> stdinIsTTY env \<and> \<not> ttyOpens env
      then resolve Cancelled
             (emit (ConsoleError non_interactive_msg)
                (init_state xs title initialIndex False [OpenTty]))
      else
        let s0 = init_state xs title initialIndex (\<not> stdinIsTTY env)
                   (if stdinIsTTY env then [] else [OpenTty]);
            s1 = emit EmitKeypressEvents s0;
            s2 = (if isTTY s1 then (emit (SetRawMode True) s1)\<lparr>rawMode := True\<rparr> else s1);
            s3 = (emit Resume s2)\<lparr>flowing := True\<rparr>;
            s4 = (emit ListenOn s3)\<lparr>listening := True\<rparr>
        in render s4)"

text \<open>The event emitter calls the handler only while it is registered.\<close>

definition deliver :: "MenuState \<Rightarrow> key option \<Rightarrow> MenuState" where
  "deliver s ev = (if listening s then onKeypress ev s else s)"

definition run :: "MenuState \<Rightarrow> key option list \<Rightarrow> MenuState" where
  "run s evs = foldl deliver s evs"

section \<open>Instrumenting the output sink\<close>

text \<open>
  The lines of a write are counted by its line feeds. That is the number of rows it takes
  on a terminal wide enough for each line; rows added by the wrapping of a long line are
  outside this model. A render pass is a block write; the erasures counted for it are the \<^verbatim>\<open>clearLines\<close>
  writes since the block before. \<open>render_passes\<close> reads, from a trace, the pair
  (lines erased, lines written) of every pass, and \<open>pending\<close> the erasures after the
  last block.
\<close>

definition count_nl :: "string \<Rightarrow> nat" where
  "count_nl str = length (filter (\<lambda>ch. ch = NL) str)"

fun render_passes :: "nat \<Rightarrow> effect list \<Rightarrow> (nat \<times> nat) list" where
  "render_passes e [] = []"
| "render_passes e (x # t) =
     (case x of
        StderrWrite str \<Rightarrow>
          if str = clear_seq then render_passes (Suc e) t
          else (e, count_nl str) # render_passes 0 t
      | _ \<Rightarrow> render_passes e t)"

fun pending :: "nat \<Rightarrow> effect list \<Rightarrow> nat" where
  "pending e [] = e"
| "pending e (x # t) =
     (case x of
        StderrWrite str \<Rightarrow> if str = clear_seq then pending (Suc e) t else pending 0 t
      | _ \<Rightarrow> pending e t)"

text \<open>Redraw consistency of a list of passes: each pass erases what the pass before wrote.\<close>

fun consistent :: "(nat \<times> nat) list \<Rightarrow> bool" where
  "consistent [] = True"
| "consistent [p] = True"
| "consistent (p # q # ps) = (fst q = snd p \<and> consistent (q # ps))"

definition key_named :: "string \<Rightarrow> key option" where
  "key_named n = Some \<lparr>name = Some n, ctrl = False\<rparr>"

definition Up :: "key option" where "Up = key_named ''up''"
definition Down :: "key option" where "Down = key_named ''down''"
definition Enter :: "key option" where "Enter = key_named ''return''"
definition Escape :: "key option" where "Escape = key_named ''escape''"
definition CtrlC :: "key option" where "CtrlC = Some \<lparr>name = Some ''c'', ctrl = True\<rparr>"

definition tty :: tty_env where
  "tty = \<lparr>stdinIsTTY = True, ttyOpens = True\<rparr>"

text \<open>The text of one block, and the calls \<^verbatim>\<open>stop\<close> makes, named for the statements below.\<close>

definition block :: "MenuState \<Rightarrow> string" where
  "block s = js_join [NL] (block_lines s) @ [NL]"

definition stop_effects :: "bool \<Rightarrow> effect list" where
  "stop_effects nc = [ListenOff, SetRawMode False, Pause] @ (if nc then [Destroy] else [])"

text \<open>A session: the selector started, then the key events delivered in order.\<close>

definition session :: "tty_env \<Rightarrow> string list \<Rightarrow> string \<Rightarrow> int \<Rightarrow> key option list \<Rightarrow> MenuState" where
  "session env xs title initialIndex evs = run (selectMenuInteractively env xs title initialIndex) evs"

text \<open>
  The state the cleanup discipline asks for once a session is over: nothing left drawn,
  input in cooked mode, no listener, and the stream destroyed when the selector opened it.
\<close>

definition cleaned :: "MenuState \<Rightarrow> bool" where
  "cleaned s = (renderedLines s = 0 \<and> \<not> rawMode s \<and> \<not> listening s \<and> (needClose s \<longrightarrow> destroyed s))"

text \<open>The stream an effect writes to, if it writes.\<close>

datatype stream = Stdout | Stderr

fun stream_of :: "effect \<Rightarrow> stream option" where
  "stream_of (StdoutWrite str) = Some Stdout"
| "stream_of (ConsoleLog str) = Some Stdout"
| "stream_of (StderrWrite str) = Some Stderr"
| "stream_of (ConsoleError str) = Some Stderr"
| "stream_of e = None"

text \<open>The bytes a trace puts on standard output (\<^verbatim>\<open>console.log\<close> appends a line feed).\<close>

fun stdout_of :: "effect list \<Rightarrow> string" where
  "stdout_of [] = []"
| "stdout_of (x # t) =
     (case x of
        StdoutWrite str \<Rightarrow> str @ stdout_of t
      | ConsoleLog str \<Rightarrow> str @ [NL] @ stdout_of t
      | _ \<Rightarrow> stdout_of t)"

text \<open>The two tests of \<^verbatim>\<open>onKeypress\<close> that end a session.\<close>

definition is_enter :: "key \<Rightarrow> bool" where
  "is_enter k = (name k = Some ''return'' \<or> name k = Some ''enter'')"

definition is_cancel :: "key \<Rightarrow> bool" where
  "is_cancel k = (name k = Some ''escape'' \<or> (name k = Some ''c'' \<and> ctrl k))"

text \<open>
  What holds of every state a session reaches: the handler is registered exactly while the
  promise is pending, a settled session is cleaned up, and nothing was written to
  standard output.
\<close>

definition session_inv :: "MenuState \<Rightarrow> bool" where
  "session_inv s = ((listening s \<longleftrightarrow> resolved s = None)
          \<and> (resolved s \<noteq> None \<longrightarrow> cleaned s)
          \<and> (\<forall>e \<in> set (trace s). stream_of e \<noteq> Some Stdout))"


text \<open>
  Labels without a line feed, and what holds of every state of a session on such labels:
  the passes so far are consistent, and while the session is open no erasure is pending
  and the last pass wrote as many lines as are recorded.
\<close>

definition no_nl :: "string \<Rightarrow> bool" where
  "no_nl str = (NL \<notin> set str)"

definition redraw_inv :: "string list \<Rightarrow> string \<Rightarrow> MenuState \<Rightarrow> bool" where
  "redraw_inv xs title s =
     (items s = xs \<and> hdr s = c_cyan (c_bold title)
      \<and> consistent (render_passes 0 (trace s))
      \<and> (listening s \<longrightarrow>
            pending 0 (trace s) = 0
          \<and> render_passes 0 (trace s) \<noteq> []
          \<and> snd (last (render_passes 0 (trace s))) = renderedLines s))"

section \<open>Validation and shell quoting\<close>

text \<open>
  \<^verbatim>\<open>/^[A-Z0-9_]+$/\<close> without flags: the whole string, at least one character, each an
  upper-case ASCII letter, a digit or an underscore.
\<close>

definition code :: "char \<Rightarrow> nat" where
  "code ch = of_char ch"

definition key_char :: "char \<Rightarrow> bool" where
  "key_char ch = ((code (CHR ''A'') \<le> code ch \<and> code ch \<le> code (CHR ''Z''))
                \<or> (code (CHR ''0'') \<le> code ch \<and> code ch \<le> code (CHR ''9''))
                \<or> ch = CHR ''_'')"

definition isValidKey :: "string \<Rightarrow> bool" where
  "isValidKey k = (k \<noteq> [] \<and> list_all key_char k)"

definition hasNewline :: "string \<Rightarrow> bool" where
  "hasNewline val = (CR \<in> set val \<or> NL \<in> set val)"

text \<open>\<^verbatim>\<open>s.replace(/'/g, "'\\''")\<close>: every single quote becomes the four characters \<^verbatim>\<open>'\''\<close>.\<close>

definition SQ :: char where
  "SQ = CHR 0x27"

definition BS :: char where
  "BS = CHR 0x5C"

fun replace_quotes :: "string \<Rightarrow> string" where
  "replace_quotes [] = []"
| "replace_quotes (ch # r) = (if ch = SQ then [SQ, BS, SQ, SQ] @ replace_quotes r else ch # replace_quotes r)"

definition shellQuote :: "string \<Rightarrow> string" where
  "shellQuote v = [SQ] @ replace_quotes v @ [SQ]"

section \<open>The loaded configuration and the runtime\<close>

text \<open>
  A loaded configuration, as the commands read it. \<open>current\<close> is the string held by
  \<^verbatim>\<open>cfg.current\<close>, or \<open>None\<close> for \<^verbatim>\<open>null\<close> (and for any other value, which is equal to
  no preset name). \<open>envs\<close> lists the own keys of \<^verbatim>\<open>cfg.envs\<close> in the order
  \<^verbatim>\<open>Object.keys\<close> gives them; a preset is \<open>None\<close> when its value is falsy and otherwise
  the list \<^verbatim>\<open>Object.entries\<close> gives for it, each value as \<^verbatim>\<open>String\<close> renders it (the
  commands read values only through \<^verbatim>\<open>String\<close>). \<open>inherited\<close> lists the names that are no
  such key and for which \<^verbatim>\<open>cfg.envs[name]\<close> is truthy all the same: the properties of
  \<^verbatim>\<open>Object.prototype\<close> when \<^verbatim>\<open>cfg.envs\<close> is an object, and when it is an array (which
  \<^verbatim>\<open>readConfig\<close> lets through) also those of \<^verbatim>\<open>Array.prototype\<close> and a non-zero
  \<^verbatim>\<open>length\<close>. Each of these values is a function, a prototype object or a number, and
  \<^verbatim>\<open>Object.entries\<close> of it is empty.
\<close>

type_synonym entries = "(string \<times> string) list"

record config =
  current :: "string option"
  envs :: "(string \<times> entries option) list"
  inherited :: "string list"

text \<open>
  What the commands take from Node and the operating system: the directory
  \<^verbatim>\<open>CONFIG_DIR\<close>, the clock and the process id, \<^verbatim>\<open>Array.prototype.sort\<close> on strings,
  \<^verbatim>\<open>JSON.stringify(cfg, null, 2)\<close>, and how the two file operations of \<^verbatim>\<open>writeConfig\<close> end:
  \<^verbatim>\<open>writeFileSync\<close> may throw after some bytes reached the file, \<^verbatim>\<open>renameSync\<close> may throw.
\<close>

record runtime =
  configDir :: string
  now :: nat
  pid :: nat
  js_sort :: "string list \<Rightarrow> string list"
  JSON_stringify :: "config \<Rightarrow> string"
  writeFails :: "nat option"
  renameFails :: bool

text \<open>Decimal digits of a natural number, as template strings render integers.\<close>

fun dec :: "nat \<Rightarrow> string" where
  "dec n = (if n < 10 then [char_of (48 + n)] else dec (n div 10) @ [char_of (48 + n mod 10)])"

text \<open>\<^verbatim>\<open>path.join\<close> of a normalised directory and a file name.\<close>

definition path_join :: "string \<Rightarrow> string \<Rightarrow> string" where
  "path_join d f = d @ ''/'' @ f"

definition CONFIG_PATH :: "runtime \<Rightarrow> string" where
  "CONFIG_PATH rt = path_join (configDir rt) ''config.json''"

definition tmp_path :: "runtime \<Rightarrow> string" where
  "tmp_path rt = path_join (configDir rt) (''config.'' @ dec (now rt) @ ''.'' @ dec (pid rt) @ ''.tmp'')"

text \<open>
  \<^verbatim>\<open>writeConfig\<close>: \<^verbatim>\<open>ensureDir\<close> swallows its error; an exception of the write or of the
  rename leaves the function, and nothing after it runs.
\<close>

definition writeConfig :: "runtime \<Rightarrow> config \<Rightarrow> effect list" where
  "writeConfig rt cfg =
     (let tmp = tmp_path rt;
          data = JSON_stringify rt cfg @ [NL]
      in MkDir (configDir rt) #
         (case writeFails rt of
            Some n \<Rightarrow> [WriteFile tmp (take n data), Throw]
          | None \<Rightarrow>
              WriteFile tmp data #
              (if renameFails rt then [Throw] else [Rename tmp (CONFIG_PATH rt)])))"

text \<open>The files, and what an effect does to them.\<close>

type_synonym files = "string \<rightharpoonup> string"

fun apply_effect :: "files \<Rightarrow> effect \<Rightarrow> files" where
  "apply_effect fs (WriteFile p d) = fs(p \<mapsto> d)"
| "apply_effect fs (Rename a b) = (fs(b := fs a))(a := None)"
| "apply_effect fs e = fs"

definition apply_effects :: "files \<Rightarrow> effect list \<Rightarrow> files" where
  "apply_effects fs es = foldl apply_effect fs es"

section \<open>The \<^verbatim>\<open>use\<close> command\<close>

text \<open>
  \<^verbatim>\<open>cfg.envs[name]\<close>: an own key gives its preset; one of the inherited names gives a
  truthy value without entries; any other name gives \<^verbatim>\<open>undefined\<close>. The second
  definition is the list of inherited names of an object that \<^verbatim>\<open>JSON.parse\<close> made.
\<close>

definition object_prototype_names :: "string list" where
  "object_prototype_names =
     [''constructor'', ''__defineGetter__'', ''__defineSetter__'', ''hasOwnProperty'',
      ''__lookupGetter__'', ''__lookupSetter__'', ''isPrototypeOf'', ''propertyIsEnumerable'',
      ''toString'', ''valueOf'', ''__proto__'', ''toLocaleString'']"

definition preset_of :: "config \<Rightarrow> string \<Rightarrow> entries option" where
  "preset_of cfg n =
     (case map_of (envs cfg) n of
        Some p \<Rightarrow> p
      | None \<Rightarrow> if n \<in> set (inherited cfg) then Some [] else None)"

text \<open>The validation loop: the first pair that fails reports and exits.\<close>

fun validate :: "entries \<Rightarrow> effect list option" where
  "validate [] = None"
| "validate ((k, v) # r) =
     (if \<not> isValidKey k
      then Some [ConsoleError (''Invalid key name: '' @ k @ ''. Should match [A-Z0-9_]+''), Exit 1]
      else if hasNewline v
      then Some [ConsoleError (''Value contains newline; cannot export: '' @ k),
                 ConsoleError ''Please make it a single line via `quickenv set`.'', Exit 1]
      else validate r)"

definition export_stmt :: "string \<times> string \<Rightarrow> string" where
  "export_stmt kv = ''export '' @ fst kv @ ''='' @ shellQuote (snd kv) @ '';''"

definition export_out :: "entries \<Rightarrow> string" where
  "export_out vars =
     (let out = js_join [NL] (map export_stmt vars)
      in out @ (if out \<noteq> [] then [NL] else []))"

text \<open>\<^verbatim>\<open>cmdUse\<close> from the point where the name is known (line 224 on).\<close>

definition use_preset :: "runtime \<Rightarrow> config \<Rightarrow> string \<Rightarrow> effect list" where
  "use_preset rt cfg n =
     (case preset_of cfg n of
        None \<Rightarrow>
          [ConsoleError (''Preset not found: '' @ n),
           ConsoleError ''Use `quickenv list` to view existing presets.'', Exit 1]
      | Some vars \<Rightarrow>
          (case validate vars of
             Some errs \<Rightarrow> errs
           | None \<Rightarrow>
               let w = writeConfig rt (cfg\<lparr>current := Some n\<rparr>)
               in if Throw \<in> set w then w else w @ [StdoutWrite (export_out vars)]))"

text \<open>\<^verbatim>\<open>Array.prototype.indexOf\<close> on strings.\<close>

fun indexOf :: "string list \<Rightarrow> string \<Rightarrow> int" where
  "indexOf [] y = - 1"
| "indexOf (x # xs) y = (if x = y then 0 else (let r = indexOf xs y in if r < 0 then - 1 else r + 1))"

text \<open>\<^verbatim>\<open>Math.max(0, current ? names.indexOf(current) : 0)\<close>; the empty string is falsy.\<close>

definition current_index :: "string list \<Rightarrow> string option \<Rightarrow> int" where
  "current_index names cur =
     max 0 (case cur of None \<Rightarrow> 0 | Some c \<Rightarrow> if c = [] then 0 else indexOf names c)"

text \<open>
  \<^verbatim>\<open>selectPresetInteractively\<close> has the closures of \<^verbatim>\<open>selectMenuInteractively\<close> word for
  word; it differs in the title, the initial index and the report.
\<close>

definition non_interactive_use_msg :: string where
  "non_interactive_use_msg = c_red ''Non-interactive environment. Provide a name: quickenv use <name>''"

definition selectPresetInteractively :: "tty_env \<Rightarrow> string list \<Rightarrow> string option \<Rightarrow> MenuState" where
  "selectPresetInteractively env names cur =
     (if \<not> stdinIsTTY env \<and> \<not> ttyOpens env
      then resolve Cancelled
             (emit (ConsoleError non_interactive_use_msg)
                ((init_state names ''Select a preset:'' 0 False [OpenTty])
                   \<lparr>idx := Num (current_index names cur)\<rparr>))
      else
        let s0 = (init_state names ''Select a preset:'' 0 (\<not> stdinIsTTY env)
                   (if stdinIsTTY env then [] else [OpenTty]))
                 \<lparr>idx := Num (current_index names cur)\<rparr>;
            s1 = emit EmitKeypressEvents s0;
            s2 = (if isTTY s1 then (emit (SetRawMode True) s1)\<lparr>rawMode := True\<rparr> else s1);
            s3 = (emit Resume s2)\<lparr>flowing := True\<rparr>;
            s4 = (emit ListenOn s3)\<lparr>listening := True\<rparr>
        in render s4)"

text \<open>JavaScript truthiness of what a selection resolved with.\<close>

fun truthy :: "SelectionResult \<Rightarrow> string option" where
  "truthy (Picked p) = (if p = [] then None else Some p)"
| "truthy Cancelled = None"
| "truthy Undefined = None"

text \<open>
  \<^verbatim>\<open>cmdUse\<close> on a loaded configuration: \<open>arg\<close> is \<^verbatim>\<open>argv[1]\<close>, \<open>evs\<close> the key events the
  user sends if a selection is opened. While the selection is pending the command waits.
\<close>

definition use_interactive :: "runtime \<Rightarrow> tty_env \<Rightarrow> config \<Rightarrow> key option list \<Rightarrow> effect list" where
  "use_interactive rt env cfg evs =
     (let names = js_sort rt (map fst (envs cfg))
      in if names = []
         then [ConsoleError (c_red ''No presets available. Run `quickenv set` to create variables first.''),
               Exit 1]
         else
           let s = run (selectPresetInteractively env names (current cfg)) evs
           in trace s @
              (case resolved s of
                 None \<Rightarrow> []
               | Some r \<Rightarrow>
                   (case truthy r of
                      None \<Rightarrow> [ConsoleError (c_yellow ''Cancelled.''), Exit 1]
                    | Some picked \<Rightarrow> use_preset rt cfg picked)))"

definition cmdUse :: "runtime \<Rightarrow> tty_env \<Rightarrow> config \<Rightarrow> string option \<Rightarrow> key option list \<Rightarrow> effect list" where
  "cmdUse rt env cfg arg evs =
     (case arg of
        None \<Rightarrow> use_interactive rt env cfg evs
      | Some n \<Rightarrow> if n = [] then use_interactive rt env cfg evs else use_preset rt cfg n)"

text \<open>
  The value of a shell word built from single-quoted parts and backslash escapes, after
  the POSIX rules: inside single quotes every character up to the next single quote is
  literal; outside, a backslash makes the next character literal. The flag says whether
  the reader is inside quotes. Any other unquoted character is outside this reader.
\<close>

fun sh_word :: "bool \<Rightarrow> string \<Rightarrow> string option" where
  "sh_word False [] = Some []"
| "sh_word True [] = None"
| "sh_word True (ch # r) =
     (if ch = SQ then sh_word False r else map_option (Cons ch) (sh_word True r))"
| "sh_word False [ch] = (if ch = SQ then sh_word True [] else None)"
| "sh_word False (ch # ch' # r) =
     (if ch = SQ then sh_word True (ch' # r)
      else if ch = BS then map_option (Cons ch') (sh_word False r)
      else None)"

text \<open>The pairs that pass the validation loop.\<close>

definition valid_pair :: "string \<times> string \<Rightarrow> bool" where
  "valid_pair kv = (isValidKey (fst kv) \<and> \<not> hasNewline (snd kv))"

text \<open>Effects that only report on the error stream or end the process.\<close>

fun report_only :: "effect \<Rightarrow> bool" where
  "report_only (ConsoleError str) = True"
| "report_only (Exit n) = True"
| "report_only e = False"

section \<open>A concrete runtime\<close>

text \<open>
  \<^verbatim>\<open>Array.prototype.sort\<close> without a comparator orders strings by UTF-16 code units. On
  strings without characters beyond U+FFFF that is the order of the code points, which is
  the bytewise order of the UTF-8 encodings; insertion sort by that order is the sort of
  such lists.
\<close>

fun str_le :: "string \<Rightarrow> string \<Rightarrow> bool" where
  "str_le [] ys = True"
| "str_le (x # xs) [] = False"
| "str_le (x # xs) (y # ys) = (code x < code y \<or> (code x = code y \<and> str_le xs ys))"

fun insert_sorted :: "string \<Rightarrow> string list \<Rightarrow> string list" where
  "insert_sorted x [] = [x]"
| "insert_sorted x (y # ys) = (if str_le x y then x # y # ys else y # insert_sorted x ys)"

definition sort_strings :: "string list \<Rightarrow> string list" where
  "sort_strings xs = foldr insert_sorted xs []"

text \<open>
  \<^verbatim>\<open>JSON.stringify(cfg, null, 2)\<close> for a configuration whose members are \<^verbatim>\<open>current\<close> and
  \<^verbatim>\<open>envs\<close> in this order, whose presets are objects (or \<^verbatim>\<open>null\<close>) and whose values are
  strings: strings between double quotes with the escapes of \<^verbatim>\<open>QuoteJSONString\<close>, members
  one per line, indented by two spaces per level, an empty object as \<^verbatim>\<open>{}\<close>.
\<close>

definition DQ :: char where
  "DQ = CHR 0x22"

definition hex_digit :: "nat \<Rightarrow> char" where
  "hex_digit n = (if n < 10 then char_of (48 + n) else char_of (87 + n))"

definition quote_json_char :: "char \<Rightarrow> string" where
  "quote_json_char ch =
     (if ch = DQ then [BS, DQ]
      else if ch = BS then [BS, BS]
      else if code ch = 8 then [BS, CHR ''b'']
      else if code ch = 12 then [BS, CHR ''f'']
      else if code ch = 10 then [BS, CHR ''n'']
      else if code ch = 13 then [BS, CHR ''r'']
      else if code ch = 9 then [BS, CHR ''t'']
      else if code ch < 32 then [BS] @ ''u00'' @ [hex_digit (code ch div 16), hex_digit (code ch mod 16)]
      else [ch])"

definition json_string :: "string \<Rightarrow> string" where
  "json_string str = [DQ] @ concat (map quote_json_char str) @ [DQ]"

definition json_object :: "nat \<Rightarrow> (string \<times> string) list \<Rightarrow> string" where
  "json_object depth members =
     (if members = [] then ''{}''
      else ''{'' @ [NL]
           @ js_join ('','' @ [NL])
               (map (\<lambda>kv. replicate (2 * (depth + 1)) (CHR '' '') @ json_string (fst kv) @ '': '' @ snd kv)
                  members)
           @ [NL] @ replicate (2 * depth) (CHR '' '') @ ''}'')"

definition stringify_config :: "config \<Rightarrow> string" where
  "stringify_config cfg =
     json_object 0
       [(''current'', case current cfg of None \<Rightarrow> ''null'' | Some c \<Rightarrow> json_string c),
        (''envs'',
         json_object 1
           (map (\<lambda>np. (fst np,
                        case snd np of
                          None \<Rightarrow> ''null''
                        | Some vars \<Rightarrow> json_object 2 (map (\<lambda>kv. (fst kv, json_string (snd kv))) vars)))
              (envs cfg)))]"

text \<open>
  A runtime without failures, and the configuration loaded from a file with the presets
  \<^verbatim>\<open>dev\<close> and \<^verbatim>\<open>bad\<close>, for concrete runs.
\<close>

definition demo_rt :: runtime where
  "demo_rt = \<lparr>configDir = ''/home/u/.quick-env'', now = 17, pid = 42, js_sort = sort_strings,
              JSON_stringify = stringify_config, writeFails = None, renameFails = False\<rparr>"

definition demo_cfg :: config where
  "demo_cfg = \<lparr>current = Some ''dev'',
               envs = [(''dev'', Some [(''API_URL'', ''it'' @ [SQ] @ ''s''), (''N'', ''1'')]),
                       (''bad'', Some [(''OK'', ''1''), (''lower'', ''x'')])],
               inherited = object_prototype_names\<rparr>"

text \<open>The text of the configuration file after \<^verbatim>\<open>dev\<close> has been saved as current preset.\<close>

definition demo_saved :: string where
  "demo_saved =
         ''{'' @ [CHR 0x0A] @ ''  '' @ [CHR 0x22] @ ''current'' @ [CHR 0x22] @ '': ''
         @ [CHR 0x22] @ ''dev'' @ [CHR 0x22] @ '','' @ [CHR 0x0A] @ ''  '' @ [CHR 0x22]
         @ ''envs'' @ [CHR 0x22] @ '': {'' @ [CHR 0x0A] @ ''    '' @ [CHR 0x22] @ ''dev''
         @ [CHR 0x22] @ '': {'' @ [CHR 0x0A] @ ''      '' @ [CHR 0x22] @ ''API_URL'' @ [CHR 0x22]
         @ '': '' @ [CHR 0x22] @ ''it'' @ [CHR 0x27] @ ''s'' @ [CHR 0x22] @ '','' @ [CHR 0x0A]
         @ ''      '' @ [CHR 0x22] @ ''N'' @ [CHR 0x22] @ '': '' @ [CHR 0x22] @ ''1''
         @ [CHR 0x22, CHR 0x0A] @ ''    },'' @ [CHR 0x0A] @ ''    '' @ [CHR 0x22] @ ''bad''
         @ [CHR 0x22] @ '': {'' @ [CHR 0x0A] @ ''      '' @ [CHR 0x22] @ ''OK'' @ [CHR 0x22]
         @ '': '' @ [CHR 0x22] @ ''1'' @ [CHR 0x22] @ '','' @ [CHR 0x0A] @ ''      ''
         @ [CHR 0x22] @ ''lower'' @ [CHR 0x22] @ '': '' @ [CHR 0x22] @ ''x''
         @ [CHR 0x22, CHR 0x0A] @ ''    }'' @ [CHR 0x0A] @ ''  }'' @ [CHR 0x0A] @ ''}''
         @ [CHR 0x0A]"

section \<open>Listing presets\<close>

text \<open>
  \<^verbatim>\<open>String.prototype.length\<close> counts UTF-16 code units: in UTF-8 a continuation byte adds
  none, the lead byte of a four-byte sequence two, any other byte one.
\<close>

definition utf16_units :: "char \<Rightarrow> nat" where
  "utf16_units ch = (if 128 \<le> code ch \<and> code ch < 192 then 0 else if 240 \<le> code ch then 2 else 1)"

definition js_length :: "string \<Rightarrow> nat" where
  "js_length str = sum_list (map utf16_units str)"

definition padRight :: "string \<Rightarrow> nat \<Rightarrow> string" where
  "padRight str len = (if js_length str \<ge> len then str else str @ replicate (len - js_length str) (CHR '' ''))"

definition printAlignedVars :: "runtime \<Rightarrow> entries \<Rightarrow> effect list" where
  "printAlignedVars rt vars =
     (if vars = [] then [ConsoleLog (c_dim ''(no variables)'')]
      else
        let width = foldr max (map (js_length \<circ> fst) vars) 0
        in map (\<lambda>k. ConsoleLog
                    (c_cyan (c_bold (padRight k width)) @ '' '' @ c_dim ''='' @ '' ''
                       @ (case map_of vars k of Some val \<Rightarrow> val | None \<Rightarrow> ''undefined'')))
               (js_sort rt (map fst vars)))"

text \<open>The star U+2605, the bullet U+2022 and the middle dot U+00B7 of the plain list.\<close>

definition star_glyph :: string where
  "star_glyph = [CHR 0xE2, CHR 0x98, CHR 0x85]"

definition bullet_glyph :: string where
  "bullet_glyph = [CHR 0xE2, CHR 0x80, CHR 0xA2]"

definition middle_dot :: string where
  "middle_dot = '' '' @ [CHR 0xC2, CHR 0xB7] @ '' ''"

definition preset_line :: "config \<Rightarrow> string \<Rightarrow> effect" where
  "preset_line cfg n =
     (let isCurrent = (current cfg = Some n);
          bullet = (if isCurrent then c_green star_glyph else c_gray bullet_glyph);
          label = (if isCurrent then c_green (c_bold n) else n);
          count = (case preset_of cfg n of Some vars \<Rightarrow> length vars | None \<Rightarrow> 0);
          meta = [dec count] @ (if isCurrent then [''current''] else [])
      in ConsoleLog ('' '' @ bullet @ '' '' @ label @ '' '' @ c_dim (''['' @ js_join middle_dot meta @ '']'')))"

text \<open>The branch of \<^verbatim>\<open>cmdList\<close> for a falsy selection: the plain list of names.\<close>

definition list_presets :: "config \<Rightarrow> string list \<Rightarrow> effect list" where
  "list_presets cfg names =
     ConsoleLog (c_cyan (c_bold ''Presets'') @ '' '' @ c_dim (''('' @ dec (length names) @ '')''))
     # map (preset_line cfg) names"

definition show_picked :: "runtime \<Rightarrow> config \<Rightarrow> string \<Rightarrow> effect list" where
  "show_picked rt cfg picked =
     (let vars = (case preset_of cfg picked of Some vs \<Rightarrow> vs | None \<Rightarrow> [])
      in [ConsoleLog (c_cyan (c_bold ''Preset: '') @ picked @ '' '' @ c_dim (''['' @ dec (length vars) @ '']'')),
          ConsoleLog []]
         @ printAlignedVars rt vars)"

definition cmdList :: "runtime \<Rightarrow> tty_env \<Rightarrow> config \<Rightarrow> key option list \<Rightarrow> effect list" where
  "cmdList rt env cfg evs =
     (let names = js_sort rt (map fst (envs cfg))
      in if names = [] then [ConsoleLog (c_dim ''(no presets)'')]
         else
           let currentIdx = current_index names (current cfg);
               s = run (selectMenuInteractively env names ''Select a preset:'' currentIdx) evs
           in trace s @
              (case resolved s of
                 None \<Rightarrow> []
               | Some r \<Rightarrow>
                   (case truthy r of
                      None \<Rightarrow> list_presets cfg names
                    | Some picked \<Rightarrow> show_picked rt cfg picked)))"

section \<open>Reading the configuration file\<close>

text \<open>
  A value \<^verbatim>\<open>JSON.parse\<close> returns. A number is carried by its text. An array carries,
  besides its elements, the named properties assigned to it later. \<^verbatim>\<open>JSON.parse\<close> itself
  belongs to the runtime and is a parameter: \<open>None\<close> stands for a thrown \<^verbatim>\<open>SyntaxError\<close>.
\<close>

datatype json =
    JNull
  | JBool bool
  | JNum string
  | JStr string
  | JArr "json list" "(string \<times> json) list"
  | JObj "(string \<times> json) list"

text \<open>\<^verbatim>\<open>v && typeof v === "object"\<close>: objects and arrays; \<^verbatim>\<open>null\<close> is falsy.\<close>

fun is_object :: "json \<Rightarrow> bool" where
  "is_object (JObj kvs) = True"
| "is_object (JArr xs kvs) = True"
| "is_object v = False"

definition defaultConfig :: json where
  "defaultConfig = JObj [(''current'', JNull), (''envs'', JObj [])]"

text \<open>Assignment to a named property: in place when the key exists, appended otherwise.\<close>

fun set_prop :: "string \<Rightarrow> json \<Rightarrow> (string \<times> json) list \<Rightarrow> (string \<times> json) list" where
  "set_prop k v [] = [(k, v)]"
| "set_prop k v ((k', v') # r) = (if k' = k then (k, v) # r else (k', v') # set_prop k v r)"

text \<open>Lines 35 and 36 of \<^verbatim>\<open>readConfig\<close> on the named properties of the parsed value.\<close>

definition normalize_props :: "(string \<times> json) list \<Rightarrow> (string \<times> json) list" where
  "normalize_props kvs =
     (let kvs1 = (case map_of kvs ''envs'' of
                    Some v \<Rightarrow> if is_object v then kvs else set_prop ''envs'' (JObj []) kvs
                  | None \<Rightarrow> set_prop ''envs'' (JObj []) kvs)
      in if ''current'' \<in> fst ` set kvs1 then kvs1 else set_prop ''current'' JNull kvs1)"

fun normalize :: "json \<Rightarrow> json" where
  "normalize (JObj kvs) = JObj (normalize_props kvs)"
| "normalize (JArr xs kvs) = JArr xs (normalize_props kvs)"
| "normalize v = v"

text \<open>
  \<^verbatim>\<open>!raw.trim()\<close>: the content consists of white space and line terminators only. On
  UTF-8 bytes: tab, line feed, vertical tab, form feed, carriage return, space; U+00A0;
  U+1680, U+2000 to U+200A, U+2028, U+2029, U+202F, U+205F, U+3000 and U+FEFF.
\<close>

definition ascii_space :: "char \<Rightarrow> bool" where
  "ascii_space ch = (code ch \<in> {9, 10, 11, 12, 13, 32})"

definition space3 :: "char \<Rightarrow> char \<Rightarrow> char \<Rightarrow> bool" where
  "space3 a b c =
     ((code a, code b, code c) \<in> {(225, 154, 128), (226, 128, 168), (226, 128, 169),
                                  (226, 128, 175), (226, 129, 159), (227, 128, 128),
                                  (239, 187, 191)}
      \<or> (code a = 226 \<and> code b = 128 \<and> 128 \<le> code c \<and> code c \<le> 138))"

fun js_blank :: "string \<Rightarrow> bool" where
  "js_blank [] = True"
| "js_blank [a] = ascii_space a"
| "js_blank [a, b] = (if ascii_space a then ascii_space b else (code a = 194 \<and> code b = 160))"
| "js_blank (a # b # c # r) =
     (if ascii_space a then js_blank (b # c # r)
      else if code a = 194 \<and> code b = 160 then js_blank (c # r)
      else space3 a b c \<and> js_blank r)"

text \<open>
  \<^verbatim>\<open>readConfig\<close> on the files: the effects, and the value returned, \<open>None\<close> when the
  process exits. \<open>readFails\<close> says that \<^verbatim>\<open>readFileSync\<close> throws.
\<close>

definition corrupted_report :: "runtime \<Rightarrow> effect list" where
  "corrupted_report rt =
     [ConsoleError (''Config file is corrupted or unreadable: '' @ CONFIG_PATH rt),
      ConsoleError ''Please back up and fix the JSON, then retry.'',
      Exit 1]"

definition readConfig :: "(string \<Rightarrow> json option) \<Rightarrow> bool \<Rightarrow> runtime \<Rightarrow> files \<Rightarrow> effect list \<times> json option" where
  "readConfig JSON_parse readFails rt fs =
     (case fs (CONFIG_PATH rt) of
        None \<Rightarrow> ([MkDir (configDir rt)], Some defaultConfig)
      | Some raw \<Rightarrow>
          if readFails then (MkDir (configDir rt) # corrupted_report rt, None)
          else if js_blank raw then ([MkDir (configDir rt)], Some defaultConfig)
          else
            (case JSON_parse raw of
               None \<Rightarrow> (MkDir (configDir rt) # corrupted_report rt, None)
             | Some cfg \<Rightarrow>
                 if \<not> is_object cfg then (MkDir (configDir rt) # corrupted_report rt, None)
                 else ([MkDir (configDir rt)], Some (normalize cfg))))"

section \<open>The selector's operations in normal form\<close>

lemma clearLines_eq:
  "clearLines n s = s\<lparr>trace := trace s @ replicate n (StderrWrite clear_seq)\<rparr>"
proof (induction n arbitrary: s)
  case 0
  show ?case by simp
next
  case (Suc n)
  show ?case
    by (simp add: Suc.IH writeStderr_def emit_def replicate_app_Cons_same)
qed

lemma length_item_lines [simp]: "length (item_lines sel i xs) = length xs"
  by (induction xs arbitrary: i) simp_all

lemma length_block_lines [simp]: "length (block_lines s) = length (items s) + 2"
  by (simp add: block_lines_def)

lemma render_eq:
  "render s = s\<lparr>trace := trace s @ replicate (renderedLines s) (StderrWrite clear_seq)
                          @ [StderrWrite (block s)],
                renderedLines := length (items s) + 2\<rparr>"
  by (simp add: render_def Let_def clearLines_eq writeStderr_def emit_def block_def)

lemma cleanup_eq:
  "cleanup s = s\<lparr>trace := trace s @ replicate (renderedLines s) (StderrWrite clear_seq),
                 renderedLines := 0\<rparr>"
  by (simp add: cleanup_def clearLines_eq)

lemma stop_eq:
  "stop s = s\<lparr>trace := trace s @ stop_effects (needClose s),
              rawMode := False, listening := False, flowing := False,
              destroyed := destroyed s \<or> needClose s\<rparr>"
  by (simp add: stop_def Let_def emit_def stop_effects_def)

lemma resolve_eq:
  "resolve r s = s\<lparr>trace := trace s @ [Resolve r],
                   resolved := (case resolved s of None \<Rightarrow> Some r | Some q \<Rightarrow> Some q)\<rparr>"
  by (simp add: resolve_def Let_def emit_def split: option.splits)

lemma js_rem_nonneg: "0 \<le> a \<Longrightarrow> 0 < b \<Longrightarrow> js_rem a b = Num (a mod b)"
  by (cases "a = 0") (simp_all add: js_rem_def)

lemma onKeypress_up:
  "onKeypress Up s = render (s\<lparr>idx := step_up (idx s) (int (length (items s)))\<rparr>)"
  by (simp add: onKeypress_def Up_def key_named_def)

lemma onKeypress_down:
  "onKeypress Down s = render (s\<lparr>idx := step_down (idx s) (int (length (items s)))\<rparr>)"
  by (simp add: onKeypress_def Down_def key_named_def)

lemma step_up_in_range:
  "0 \<le> i \<Longrightarrow> i < n \<Longrightarrow> step_up (Num i) n = Num ((i - 1 + n) mod n)"
  by (simp add: step_up_def js_rem_nonneg)

lemma step_down_in_range:
  "0 \<le> i \<Longrightarrow> i < n \<Longrightarrow> step_down (Num i) n = Num ((i + 1) mod n)"
  by (simp add: step_down_def js_rem_nonneg)

lemma onKeypress_enter:
  "is_enter k \<Longrightarrow>
   onKeypress (Some k) s = resolve (item_at (items s) (idx s)) (stop (cleanup s))"
  by (auto simp add: onKeypress_def is_enter_def Let_def stop_eq cleanup_eq)

lemma onKeypress_cancel:
  "is_cancel k \<Longrightarrow> onKeypress (Some k) s = resolve Cancelled (stop (cleanup s))"
  by (auto simp add: onKeypress_def is_cancel_def)

lemma exit_eq:
  "resolve r (stop (cleanup s)) =
   s\<lparr>trace := trace s @ replicate (renderedLines s) (StderrWrite clear_seq)
                @ stop_effects (needClose s) @ [Resolve r],
     renderedLines := 0, rawMode := False, listening := False, flowing := False,
     destroyed := destroyed s \<or> needClose s,
     resolved := (case resolved s of None \<Rightarrow> Some r | Some q \<Rightarrow> Some q)\<rparr>"
  by (simp add: resolve_eq stop_eq cleanup_eq)

lemma run_not_listening: "\<not> listening s \<Longrightarrow> run s evs = s"
  unfolding run_def by (induction evs) (simp_all add: deliver_def)

lemma run_Nil [simp]: "run s [] = s"
  by (simp add: run_def)

lemma run_Cons [simp]: "run s (ev # evs) = run (deliver s ev) evs"
  by (simp add: run_def)

lemma run_append: "run s (evs @ evs') = run (run s evs) evs'"
  by (simp add: run_def)

lemma start_interactive:
  assumes "stdinIsTTY env \<or> ttyOpens env"
  shows "selectMenuInteractively env xs title i0 =
     render ((init_state xs title i0 (\<not> stdinIsTTY env)
               ((if stdinIsTTY env then [] else [OpenTty])
                  @ [EmitKeypressEvents, SetRawMode True, Resume, ListenOn]))
             \<lparr>rawMode := True, flowing := True, listening := True\<rparr>)"
  using assms by (auto simp add: selectMenuInteractively_def Let_def emit_def init_state_def)

lemma start_fields:
  assumes "stdinIsTTY env \<or> ttyOpens env"
  shows "items (selectMenuInteractively env xs title i0) = xs"
    and "idx (selectMenuInteractively env xs title i0) = Num (max 0 (min i0 (max (int (length xs) - 1) 0)))"
    and "listening (selectMenuInteractively env xs title i0)"
    and "resolved (selectMenuInteractively env xs title i0) = None"
    and "needClose (selectMenuInteractively env xs title i0) = (\<not> stdinIsTTY env)"
    and "renderedLines (selectMenuInteractively env xs title i0) = length xs + 2"
    and "rawMode (selectMenuInteractively env xs title i0)"
    and "\<not> destroyed (selectMenuInteractively env xs title i0)"
    and "hdr (selectMenuInteractively env xs title i0) = c_cyan (c_bold title)"
  by (simp_all add: start_interactive [OF assms] render_eq init_state_def)

lemma deliver_down:
  assumes "listening s" "idx s = Num i" "0 \<le> i" "i < int (length (items s))"
  shows "idx (deliver s Down) = Num ((i + 1) mod int (length (items s)))"
    and "listening (deliver s Down)"
    and "items (deliver s Down) = items s"
  using assms by (simp_all add: deliver_def onKeypress_down render_eq step_down_in_range)

lemma run_downs:
  assumes "listening s" "idx s = Num i" "0 \<le> i" "i < int (length (items s))"
  shows "idx (run s (replicate k Down)) = Num ((i + int k) mod int (length (items s)))
         \<and> listening (run s (replicate k Down))
         \<and> items (run s (replicate k Down)) = items s"
  using assms
proof (induction k arbitrary: s i)
  case 0
  then show ?case by simp
next
  case (Suc k)
  let ?n = "int (length (items s))"
  let ?s = "deliver s Down"
  have a: "idx ?s = Num ((i + 1) mod ?n)" "listening ?s" "items ?s = items s"
    using deliver_down [OF Suc.prems] by simp_all
  have pos: "0 < ?n" using Suc.prems by linarith
  have b: "0 \<le> (i + 1) mod ?n" "(i + 1) mod ?n < int (length (items ?s))"
    using pos a(3) by simp_all
  have "((i + 1) mod ?n + int k) mod ?n = (i + int (Suc k)) mod ?n"
  proof -
    have "((i + 1) mod ?n + int k) mod ?n = ((i + 1) + int k) mod ?n"
      by (rule mod_add_left_eq)
    also have "(i + 1) + int k = i + int (Suc k)" by simp
    finally show ?thesis .
  qed
  with Suc.IH [OF a(2) a(1) b] a(3) show ?case by simp
qed

lemma render_passes_append:
  "render_passes e (t @ u) = render_passes e t @ render_passes (pending e t) u"
  by (induction t arbitrary: e) (simp_all split: effect.splits)

lemma pending_append: "pending e (t @ u) = pending (pending e t) u"
  by (induction t arbitrary: e) (simp_all split: effect.splits)

lemma render_passes_erases [simp]:
  "render_passes e (replicate n (StderrWrite clear_seq) @ u) = render_passes (e + n) u"
  by (induction n arbitrary: e) simp_all

lemma pending_erases [simp]:
  "pending e (replicate n (StderrWrite clear_seq) @ u) = pending (e + n) u"
  by (induction n arbitrary: e) simp_all

lemma render_passes_stop [simp]:
  "render_passes e (stop_effects nc @ u) = render_passes e u"
  by (simp add: stop_effects_def)

lemma session_snoc:
  "session env xs title i0 (evs @ [ev]) = deliver (session env xs title i0 evs) ev"
  by (simp add: session_def run_append)

lemma onKeypress_cases:
  "onKeypress ev s = s
   \<or> (\<exists>j. onKeypress ev s = render (s\<lparr>idx := j\<rparr>))
   \<or> (\<exists>r. onKeypress ev s = resolve r (stop (cleanup s)))"
proof (cases ev)
  case None
  then show ?thesis by (simp add: onKeypress_def)
next
  case (Some k)
  then show ?thesis
    by (simp add: onKeypress_def Let_def stop_eq cleanup_eq) blast
qed

lemma start_failed:
  assumes "\<not> stdinIsTTY env" and "\<not> ttyOpens env"
  shows "selectMenuInteractively env xs title i0 =
           (init_state xs title i0 False [OpenTty, ConsoleError non_interactive_msg, Resolve Cancelled])
           \<lparr>resolved := Some Cancelled\<rparr>"
  using assms by (simp add: selectMenuInteractively_def resolve_eq emit_def init_state_def)

lemma session_inv_start: "session_inv (selectMenuInteractively env xs title i0)"
proof (cases "stdinIsTTY env \<or> ttyOpens env")
  case True
  then show ?thesis
    by (auto simp add: session_inv_def start_interactive render_eq init_state_def)
next
  case False
  then show ?thesis
    by (simp add: session_inv_def start_failed init_state_def cleaned_def)
qed

lemma session_inv_render: "session_inv s \<Longrightarrow> listening s \<Longrightarrow> session_inv (render (s\<lparr>idx := j\<rparr>))"
  by (auto simp add: session_inv_def render_eq)

lemma session_inv_exit: "session_inv s \<Longrightarrow> listening s \<Longrightarrow> session_inv (resolve r (stop (cleanup s)))"
  by (auto simp add: session_inv_def exit_eq cleaned_def stop_effects_def)

lemma session_inv_deliver: "session_inv s \<Longrightarrow> session_inv (deliver s ev)"
  using onKeypress_cases [of ev s]
  by (auto simp add: deliver_def session_inv_render session_inv_exit)

lemma session_inv_session: "session_inv (session env xs title i0 evs)"
proof (induction evs rule: rev_induct)
  case Nil
  show ?case by (simp add: session_def session_inv_start)
next
  case (snoc ev evs)
  then show ?case by (simp add: session_snoc session_inv_deliver)
qed

lemma render_passes_only_erases [simp]:
  "render_passes e (replicate n (StderrWrite clear_seq)) = []"
  by (induction n arbitrary: e) simp_all

lemma pending_only_erases [simp]:
  "pending e (replicate n (StderrWrite clear_seq)) = e + n"
  by (induction n arbitrary: e) simp_all

lemma render_passes_exit:
  "render_passes 0 (t @ replicate n (StderrWrite clear_seq) @ stop_effects nc @ [Resolve r])
     = render_passes 0 t"
  by (simp add: render_passes_append stop_effects_def)

lemma deliver_up_single:
  assumes "listening s" and "items s = [x]" and "idx s = Num 0"
  shows "idx (deliver s Up) = Num 0" and "idx (deliver s Down) = Num 0"
  using assms
  by (simp_all add: deliver_def onKeypress_up onKeypress_down render_eq
        step_up_in_range step_down_in_range)

lemma session_pending_listening:
  "resolved (session env xs title i0 evs) = None \<Longrightarrow> listening (session env xs title i0 evs)"
  using session_inv_session [of env xs title i0 evs] by (simp add: session_inv_def)

section \<open>Redraw consistency on labels without line feeds\<close>

lemma count_nl_append [simp]: "count_nl (a @ b) = count_nl a + count_nl b"
  by (simp add: count_nl_def)

lemma count_nl_none: "no_nl str \<Longrightarrow> count_nl str = 0"
  by (induction str) (auto simp add: count_nl_def no_nl_def)

lemma count_nl_Nil [simp]: "count_nl [] = 0"
  by (simp add: count_nl_def)

lemma count_nl_Cons [simp]: "count_nl (ch # str) = (if ch = NL then 1 else 0) + count_nl str"
  by (simp add: count_nl_def)

lemma count_nl_join:
  "ls \<noteq> [] \<Longrightarrow> \<forall>l \<in> set ls. no_nl l \<Longrightarrow> count_nl (js_join [NL] ls) + 1 = length ls"
  by (induction "[NL]" ls rule: js_join.induct) (simp_all add: count_nl_none)

lemma no_nl_color:
  "no_nl opn \<Longrightarrow> no_nl cls \<Longrightarrow> no_nl str \<Longrightarrow> no_nl (color opn cls str)"
  by (simp add: no_nl_def color_def)

lemma no_nl_hdr: "no_nl title \<Longrightarrow> no_nl (c_cyan (c_bold title))"
  by (simp add: no_nl_def c_cyan_def c_bold_def color_def ESC_def NL_def)

lemma no_nl_hint: "no_nl hint"
  by (simp add: no_nl_def hint_def c_dim_def color_def ESC_def NL_def)

lemma no_nl_item_line: "no_nl x \<Longrightarrow> no_nl (item_line sel i x)"
  by (simp add: no_nl_def item_line_def c_green_def c_bold_def color_def ESC_def NL_def
        pointer_glyph_def)

lemma no_nl_item_lines:
  "\<forall>x \<in> set xs. no_nl x \<Longrightarrow> \<forall>l \<in> set (item_lines sel i xs). no_nl l"
  by (induction xs arbitrary: i) (simp_all add: no_nl_item_line)

lemma count_nl_block:
  assumes "no_nl (hdr s)" and "\<forall>x \<in> set (items s). no_nl x"
  shows "count_nl (block s) = length (items s) + 2"
proof -
  have "\<forall>l \<in> set (block_lines s). no_nl l"
    using assms no_nl_item_lines [OF assms(2)] by (simp add: block_lines_def no_nl_hint)
  moreover have "block_lines s \<noteq> []" by (simp add: block_lines_def)
  ultimately have "count_nl (js_join [NL] (block_lines s)) + 1 = length (block_lines s)"
    by (rule count_nl_join [rotated])
  then show ?thesis by (simp add: block_def)
qed

lemma block_not_clear_seq: "block s \<noteq> clear_seq"
proof
  assume "block s = clear_seq"
  then have "last (block s) = last clear_seq" by simp
  then show False by (simp add: block_def clear_seq_def NL_def)
qed

lemma consistent_snoc:
  "consistent (ps @ [q]) = (consistent ps \<and> (ps \<noteq> [] \<longrightarrow> fst q = snd (last ps)))"
  by (induction ps rule: consistent.induct) auto

lemma render_passes_render:
  "render_passes 0 (trace (render s)) =
     render_passes 0 (trace s) @ [(pending 0 (trace s) + renderedLines s, count_nl (block s))]"
  by (simp add: render_eq render_passes_append block_not_clear_seq)

lemma pending_render: "pending 0 (trace (render s)) = 0"
  by (simp add: render_eq pending_append block_not_clear_seq)

lemma redraw_inv_render:
  assumes "redraw_inv xs title s" and "listening s"
    and "no_nl title" and "\<forall>x \<in> set xs. no_nl x"
  shows "redraw_inv xs title (render (s\<lparr>idx := j\<rparr>))"
proof -
  let ?s = "s\<lparr>idx := j\<rparr>"
  have it: "items ?s = xs" "hdr ?s = c_cyan (c_bold title)"
    using assms(1) by (simp_all add: redraw_inv_def)
  have w: "count_nl (block ?s) = length xs + 2"
    using count_nl_block [of ?s] it assms(3,4) by (simp add: no_nl_hdr)
  have old: "consistent (render_passes 0 (trace s))" "pending 0 (trace s) = 0"
    "render_passes 0 (trace s) \<noteq> []"
    "snd (last (render_passes 0 (trace s))) = renderedLines s"
    using assms(1,2) by (simp_all add: redraw_inv_def)
  have ps: "render_passes 0 (trace (render ?s)) =
              render_passes 0 (trace s) @ [(renderedLines s, length xs + 2)]"
    using render_passes_render [of ?s] old(2) w by simp
  have c: "consistent (render_passes 0 (trace (render ?s)))"
    unfolding ps using old by (simp add: consistent_snoc)
  have r: "renderedLines (render ?s) = length xs + 2"
    using it by (simp add: render_eq)
  show ?thesis
    unfolding redraw_inv_def
    using it c r ps pending_render [of ?s] by (simp add: render_eq)
qed

lemma redraw_inv_exit:
  assumes "redraw_inv xs title s"
  shows "redraw_inv xs title (resolve r (stop (cleanup s)))"
  using assms
  by (simp add: redraw_inv_def exit_eq render_passes_append stop_effects_def)

lemma redraw_inv_deliver:
  assumes "redraw_inv xs title s" and "no_nl title" and "\<forall>x \<in> set xs. no_nl x"
  shows "redraw_inv xs title (deliver s ev)"
proof (cases "listening s")
  case False
  then show ?thesis using assms(1) by (simp add: deliver_def)
next
  case True
  from onKeypress_cases [of ev s] show ?thesis
  proof (elim disjE exE)
    assume "onKeypress ev s = s"
    then show ?thesis using assms(1) by (simp add: deliver_def)
  next
    fix j assume "onKeypress ev s = render (s\<lparr>idx := j\<rparr>)"
    then show ?thesis
      using redraw_inv_render [OF assms(1) True assms(2,3)] True by (simp add: deliver_def)
  next
    fix r assume "onKeypress ev s = resolve r (stop (cleanup s))"
    then show ?thesis
      using redraw_inv_exit [OF assms(1)] True by (simp add: deliver_def)
  qed
qed

lemma redraw_inv_start:
  assumes "no_nl title" and "\<forall>x \<in> set xs. no_nl x"
  shows "redraw_inv xs title (selectMenuInteractively env xs title i0)"
proof (cases "stdinIsTTY env \<or> ttyOpens env")
  case False
  then show ?thesis
    by (simp add: redraw_inv_def start_failed init_state_def)
next
  case True
  let ?s0 = "(init_state xs title i0 (\<not> stdinIsTTY env)
               ((if stdinIsTTY env then [] else [OpenTty])
                  @ [EmitKeypressEvents, SetRawMode True, Resume, ListenOn]))
             \<lparr>rawMode := True, flowing := True, listening := True\<rparr>"
  have st: "selectMenuInteractively env xs title i0 = render ?s0"
    by (rule start_interactive [OF True])
  have it: "items ?s0 = xs" "hdr ?s0 = c_cyan (c_bold title)" "renderedLines ?s0 = 0"
    by (simp_all add: init_state_def)
  have w: "count_nl (block ?s0) = length xs + 2"
    using count_nl_block [of ?s0] it assms by (simp add: no_nl_hdr)
  have p0: "render_passes 0 (trace ?s0) = []" "pending 0 (trace ?s0) = 0"
    by (simp_all add: init_state_def)
  have ps: "render_passes 0 (trace (render ?s0)) = [(0, length xs + 2)]"
    using render_passes_render [of ?s0] p0 it(3) w by simp
  show ?thesis
    unfolding st redraw_inv_def
    using ps pending_render [of ?s0] it by (simp add: render_eq)
qed

lemma redraw_inv_session:
  assumes "no_nl title" and "\<forall>x \<in> set xs. no_nl x"
  shows "redraw_inv xs title (session env xs title i0 evs)"
proof (induction evs rule: rev_induct)
  case Nil
  show ?case by (simp add: session_def redraw_inv_start [OF assms])
next
  case (snoc ev evs)
  then show ?case by (simp add: session_snoc redraw_inv_deliver [OF _ assms])
qed

text \<open>
  On a title and items without line feeds every pass after the first emits as many erase
  sequences as the pass before wrote line feeds, and while the session is open the
  recorded count is the number of line feeds of the last pass. This says nothing of
  labels wider than the terminal, whose wrapped rows the count does not see either.
\<close>

lemma redraw_consistent_without_line_feeds:
  assumes "no_nl title" and "\<forall>x \<in> set xs. no_nl x"
  shows "consistent (render_passes 0 (trace (session env xs title i0 evs)))"
    and "listening (session env xs title i0 evs) \<Longrightarrow>
         snd (last (render_passes 0 (trace (session env xs title i0 evs))))
           = renderedLines (session env xs title i0 evs)"
  using redraw_inv_session [OF assms, of env i0 evs] by (simp_all add: redraw_inv_def)

section \<open>Cleanup on the exit paths\<close>

lemma needClose_deliver: "needClose (deliver s ev) = needClose s"
  using onKeypress_cases [of ev s]
  by (auto simp add: deliver_def render_eq exit_eq)

lemma needClose_run: "needClose (run s evs) = needClose s"
  by (induction evs arbitrary: s) (simp_all add: needClose_deliver)

lemma needClose_session:
  "needClose (session env xs title i0 evs) = (\<not> stdinIsTTY env \<and> ttyOpens env)"
proof (cases "stdinIsTTY env \<or> ttyOpens env")
  case True
  then show ?thesis
    using start_fields(5) [OF True, of xs title i0] by (auto simp add: session_def needClose_run)
next
  case False
  then show ?thesis
    by (simp add: session_def needClose_run start_failed init_state_def)
qed

text \<open>
  The parts of the cleanup discipline that hold of every session. While the promise is
  pending, an escape key or Ctrl+C resolves with \<open>Cancelled\<close> and an enter key with the
  selected item, and either appends exactly: one erase sequence per recorded line, the
  removal of the listener, the return to cooked mode, the pause, the destruction of the
  stream when the selector opened it, and the resolution. The stream is the selector's
  own exactly when standard input is no terminal and the device opened. Once the promise
  is settled, by a pick, a cancel or the failed open, no line is recorded as drawn, the
  input is in cooked mode, no listener is registered, and an own stream is destroyed. On
  labels without line feeds the lines recorded are the line feeds of the last block.
\<close>

lemma cleanup_on_exit:
  assumes "s = session env xs title i0 evs"
  shows "resolved s = None \<Longrightarrow> is_cancel k \<Longrightarrow>
            resolved (deliver s (Some k)) = Some Cancelled
          \<and> trace (deliver s (Some k)) =
              trace s @ replicate (renderedLines s) (StderrWrite clear_seq)
                @ stop_effects (needClose s) @ [Resolve Cancelled]"
    and "resolved s = None \<Longrightarrow> is_enter k \<Longrightarrow>
            resolved (deliver s (Some k)) = Some (item_at (items s) (idx s))
          \<and> trace (deliver s (Some k)) =
              trace s @ replicate (renderedLines s) (StderrWrite clear_seq)
                @ stop_effects (needClose s) @ [Resolve (item_at (items s) (idx s))]"
    and "needClose s = (\<not> stdinIsTTY env \<and> ttyOpens env)"
    and "resolved s \<noteq> None \<Longrightarrow>
            renderedLines s = 0 \<and> \<not> rawMode s \<and> \<not> listening s \<and> (needClose s \<longrightarrow> destroyed s)"
    and "resolved s = None \<Longrightarrow> no_nl title \<Longrightarrow> \<forall>x \<in> set xs. no_nl x \<Longrightarrow>
            renderedLines s = snd (last (render_passes 0 (trace s)))"
proof -
  show "resolved (deliver s (Some k)) = Some Cancelled
          \<and> trace (deliver s (Some k)) =
              trace s @ replicate (renderedLines s) (StderrWrite clear_seq)
                @ stop_effects (needClose s) @ [Resolve Cancelled]"
    if "resolved s = None" "is_cancel k"
  proof -
    have "listening s" using that(1) assms session_pending_listening by simp
    then have "deliver s (Some k) = resolve Cancelled (stop (cleanup s))"
      using onKeypress_cancel [OF that(2)] by (simp add: deliver_def)
    then show ?thesis using that(1) by (simp add: exit_eq)
  qed
  show "resolved (deliver s (Some k)) = Some (item_at (items s) (idx s))
          \<and> trace (deliver s (Some k)) =
              trace s @ replicate (renderedLines s) (StderrWrite clear_seq)
                @ stop_effects (needClose s) @ [Resolve (item_at (items s) (idx s))]"
    if "resolved s = None" "is_enter k"
  proof -
    have "listening s" using that(1) assms session_pending_listening by simp
    then have "deliver s (Some k) = resolve (item_at (items s) (idx s)) (stop (cleanup s))"
      using onKeypress_enter [OF that(2)] by (simp add: deliver_def)
    then show ?thesis using that(1) by (simp add: exit_eq)
  qed
  show "needClose s = (\<not> stdinIsTTY env \<and> ttyOpens env)"
    unfolding assms by (rule needClose_session)
  show "renderedLines s = 0 \<and> \<not> rawMode s \<and> \<not> listening s \<and> (needClose s \<longrightarrow> destroyed s)"
    if "resolved s \<noteq> None"
    using that session_inv_session [of env xs title i0 evs] assms
    by (simp add: session_inv_def cleaned_def)
  show "renderedLines s = snd (last (render_passes 0 (trace s)))"
    if "resolved s = None" "no_nl title" "\<forall>x \<in> set xs. no_nl x"
  proof -
    have "listening s" using that(1) assms session_pending_listening by simp
    then show ?thesis
      using redraw_inv_session [OF that(2,3), of env i0 evs] assms by (simp add: redraw_inv_def)
  qed
qed

section \<open>Validation, export lines and quoting\<close>

lemma validate_None_iff: "validate vars = None \<longleftrightarrow> (\<forall>kv \<in> set vars. valid_pair kv)"
  by (induction vars rule: validate.induct) (auto simp add: valid_pair_def)

lemma validate_Some_report:
  "validate vars = Some errs \<Longrightarrow> list_all report_only errs \<and> errs \<noteq> [] \<and> last errs = Exit 1"
  by (induction vars rule: validate.induct) (auto split: if_splits)

lemma js_join_NL_concat:
  "xs \<noteq> [] \<Longrightarrow> js_join [NL] xs @ [NL] = concat (map (\<lambda>x. x @ [NL]) xs)"
  by (induction "[NL]" xs rule: js_join.induct) simp_all

lemma export_stmt_nonempty: "export_stmt kv \<noteq> []"
  by (simp add: export_stmt_def)

lemma js_join_nonempty: "xs \<noteq> [] \<Longrightarrow> hd xs \<noteq> [] \<Longrightarrow> js_join sep xs \<noteq> []"
  by (induction sep xs rule: js_join.induct) simp_all

lemma export_out_concat: "export_out vars = concat (map (\<lambda>kv. export_stmt kv @ [NL]) vars)"
proof (cases vars)
  case Nil
  then show ?thesis by (simp add: export_out_def)
next
  case (Cons kv r)
  then have ne: "map export_stmt vars \<noteq> []" "hd (map export_stmt vars) \<noteq> []"
    by (simp_all add: export_stmt_nonempty)
  have "js_join [NL] (map export_stmt vars) \<noteq> []"
    by (rule js_join_nonempty [OF ne])
  then have "export_out vars = js_join [NL] (map export_stmt vars) @ [NL]"
    by (simp add: export_out_def Let_def)
  also have "\<dots> = concat (map (\<lambda>x. x @ [NL]) (map export_stmt vars))"
    by (rule js_join_NL_concat [OF ne(1)])
  finally show ?thesis by (simp add: comp_def)
qed

lemma replace_quotes_concat:
  "replace_quotes v = concat (map (\<lambda>ch. if ch = SQ then [SQ, BS, SQ, SQ] else [ch]) v)"
  by (induction v) simp_all

lemma NL_replace_quotes: "NL \<in> set (replace_quotes v) \<longleftrightarrow> NL \<in> set v"
  by (induction v) (auto simp add: NL_def SQ_def BS_def)

lemma key_char_not_NL: "key_char ch \<Longrightarrow> ch \<noteq> NL"
  by (auto simp add: key_char_def NL_def code_def)

lemma valid_key_no_NL: "isValidKey k \<Longrightarrow> NL \<notin> set k"
  using key_char_not_NL by (auto simp add: isValidKey_def list_all_iff)

lemma export_stmt_one_line:
  assumes "valid_pair kv"
  shows "NL \<notin> set (export_stmt kv)"
proof -
  have k: "NL \<notin> set (fst kv)"
    using assms valid_key_no_NL by (simp add: valid_pair_def)
  have v: "NL \<notin> set (replace_quotes (snd kv))"
    using assms by (simp add: valid_pair_def hasNewline_def NL_replace_quotes)
  have c: "NL \<notin> set ''export ''" "NL \<noteq> CHR ''=''" "NL \<noteq> SQ" "NL \<noteq> CHR '';''"
    by (simp_all add: NL_def SQ_def)
  show ?thesis
    using k v c by (simp add: export_stmt_def shellQuote_def)
qed

lemma sh_word_quoted:
  "sh_word True (replace_quotes v @ SQ # rest) = map_option ((@) v) (sh_word False rest)"
proof (induction v)
  case Nil
  show ?case by (simp add: option.map_ident)
next
  case (Cons ch v)
  show ?case
  proof (cases "ch = SQ")
    case True
    have "sh_word True (replace_quotes (ch # v) @ SQ # rest)
            = sh_word False (BS # SQ # SQ # replace_quotes v @ SQ # rest)"
      using True by simp
    also have "\<dots> = map_option (Cons SQ) (sh_word False (SQ # replace_quotes v @ SQ # rest))"
      by (simp add: BS_def SQ_def)
    also have "sh_word False (SQ # replace_quotes v @ SQ # rest)
                 = sh_word True (replace_quotes v @ SQ # rest)"
      by (cases "replace_quotes v @ SQ # rest") simp_all
    finally show ?thesis using True Cons.IH by (simp add: option.map_comp comp_def)
  next
    case False
    then show ?thesis using Cons.IH by (simp add: option.map_comp comp_def)
  qed
qed

lemma sh_word_shellQuote: "sh_word False (shellQuote v) = Some v"
proof -
  have "sh_word False (shellQuote v) = sh_word True (replace_quotes v @ SQ # [])"
    by (cases "replace_quotes v @ [SQ]") (simp_all add: shellQuote_def)
  then show ?thesis by (simp add: sh_word_quoted)
qed

lemma writeConfig_ok:
  "writeFails rt = None \<Longrightarrow> \<not> renameFails rt \<Longrightarrow>
   writeConfig rt cfg =
     [MkDir (configDir rt), WriteFile (tmp_path rt) (JSON_stringify rt cfg @ [NL]),
      Rename (tmp_path rt) (CONFIG_PATH rt)]"
  by (simp add: writeConfig_def Let_def)

lemma tmp_path_not_CONFIG_PATH: "tmp_path rt \<noteq> CONFIG_PATH rt"
proof
  assume "tmp_path rt = CONFIG_PATH rt"
  then have "last (tmp_path rt) = last (CONFIG_PATH rt)" by simp
  then show False by (simp add: tmp_path_def CONFIG_PATH_def path_join_def)
qed

lemma stdout_of_append [simp]: "stdout_of (a @ b) = stdout_of a @ stdout_of b"
  by (induction a) (simp_all split: effect.splits)

lemma stdout_of_writeConfig [simp]: "stdout_of (writeConfig rt cfg) = []"
  by (simp add: writeConfig_def Let_def split: option.splits)

lemma stdout_of_report: "list_all report_only es \<Longrightarrow> stdout_of es = []"
  by (induction es) (auto split: effect.splits)

lemma apply_effects_report: "list_all report_only es \<Longrightarrow> apply_effects fs es = fs"
  unfolding apply_effects_def
  by (induction es arbitrary: fs) (auto split: effect.splits elim: report_only.elims)

lemma preset_of_own: "map_of (envs cfg) n = Some p \<Longrightarrow> preset_of cfg n = p"
  by (simp add: preset_of_def)

lemma use_preset_invalid:
  assumes "map_of (envs cfg) n = Some (Some vars)" and "\<exists>kv \<in> set vars. \<not> valid_pair kv"
  shows "list_all report_only (use_preset rt cfg n)"
    and "last (use_preset rt cfg n) = Exit 1"
proof -
  from assms(2) obtain errs where e: "validate vars = Some errs"
    using validate_None_iff [of vars] by (cases "validate vars") auto
  have u: "use_preset rt cfg n = errs"
    using preset_of_own [OF assms(1)] e by (simp add: use_preset_def)
  show "list_all report_only (use_preset rt cfg n)" "last (use_preset rt cfg n) = Exit 1"
    using validate_Some_report [OF e] u by simp_all
qed

lemma use_preset_valid:
  assumes "map_of (envs cfg) n = Some (Some vars)" and "\<forall>kv \<in> set vars. valid_pair kv"
  shows "use_preset rt cfg n =
           writeConfig rt (cfg\<lparr>current := Some n\<rparr>)
           @ (if Throw \<in> set (writeConfig rt (cfg\<lparr>current := Some n\<rparr>)) then []
              else [StdoutWrite (export_out vars)])"
proof -
  have "validate vars = None" using assms(2) by (simp add: validate_None_iff)
  then show ?thesis
    using preset_of_own [OF assms(1)] by (simp add: use_preset_def Let_def)
qed

lemma apply_effects_writeConfig_ok:
  assumes "writeFails rt = None" and "\<not> renameFails rt"
  shows "apply_effects fs (writeConfig rt cfg) (CONFIG_PATH rt) = Some (JSON_stringify rt cfg @ [NL])"
    and "apply_effects fs (writeConfig rt cfg) (tmp_path rt) = None"
  using tmp_path_not_CONFIG_PATH [of rt]
  by (simp_all add: writeConfig_ok [OF assms] apply_effects_def)

lemma apply_effects_append: "apply_effects fs (a @ b) = apply_effects (apply_effects fs a) b"
  by (simp add: apply_effects_def)

lemma trace_deliver_extends: "\<exists>u. trace (deliver s ev) = trace s @ u"
  using onKeypress_cases [of ev s]
  by (auto simp add: deliver_def render_eq exit_eq)

lemma trace_run_extends: "\<exists>u. trace (run s evs) = trace s @ u"
proof (induction evs arbitrary: s)
  case Nil
  show ?case by simp
next
  case (Cons ev evs)
  from trace_deliver_extends [of s ev] obtain u where u: "trace (deliver s ev) = trace s @ u" ..
  from Cons.IH [of "deliver s ev"] obtain w where "trace (run (deliver s ev) evs) = trace (deliver s ev) @ w" ..
  with u show ?case by simp
qed

lemma session_failed:
  assumes "\<not> stdinIsTTY env" and "\<not> ttyOpens env"
  shows "session env xs title i0 evs =
           (init_state xs title i0 False [OpenTty, ConsoleError non_interactive_msg, Resolve Cancelled])
           \<lparr>resolved := Some Cancelled\<rparr>"
proof -
  have "\<not> listening (selectMenuInteractively env xs title i0)"
    by (simp add: start_failed [OF assms] init_state_def)
  then show ?thesis
    by (simp add: session_def run_not_listening start_failed [OF assms])
qed



lemma readConfig_unreadable:
  "fs (CONFIG_PATH rt) = Some raw \<Longrightarrow>
   readConfig JSON_parse True rt fs = (MkDir (configDir rt) # corrupted_report rt, None)"
  by (simp add: readConfig_def)

lemma readConfig_object:
  assumes "fs (CONFIG_PATH rt) = Some raw" and "\<not> js_blank raw"
    and "JSON_parse raw = Some v" and "is_object v"
  shows "readConfig JSON_parse False rt fs = ([MkDir (configDir rt)], Some (normalize v))"
  using assms by (simp add: readConfig_def)




lemma stdout_of_ConsoleLogs:
  "stdout_of (map (\<lambda>x. ConsoleLog (f x)) xs) = concat (map (\<lambda>x. f x @ [NL]) xs)"
  by (induction xs) simp_all

lemma list_presets_eq:
  "list_presets cfg names =
     ConsoleLog (c_cyan (c_bold ''Presets'') @ '' '' @ c_dim (''('' @ dec (length names) @ '')''))
     # map (\<lambda>n. ConsoleLog
                 ('' '' @ (if current cfg = Some n then c_green star_glyph else c_gray bullet_glyph)
                  @ '' '' @ (if current cfg = Some n then c_green (c_bold n) else n)
                  @ '' '' @ c_dim (''[''
                       @ dec (case preset_of cfg n of Some vars \<Rightarrow> length vars | None \<Rightarrow> 0)
                       @ (if current cfg = Some n then middle_dot @ ''current'' else [])
                       @ '']'')))
         names"
  by (simp add: list_presets_def preset_line_def Let_def)

lemma stringify_demo_cfg: "stringify_config demo_cfg @ [NL] = demo_saved"
  by code_simp

lemma sort_demo_names: "sort_strings (map fst (envs demo_cfg)) = [''bad'', ''dev'']"
  by code_simp

lemma session_inv_run: "session_inv s \<Longrightarrow> session_inv (run s evs)"
  by (induction evs arbitrary: s) (simp_all add: session_inv_deliver)

lemma session_inv_preset_start: "session_inv (selectPresetInteractively env names cur)"
proof (cases "stdinIsTTY env \<or> ttyOpens env")
  case True
  then show ?thesis
    by (auto simp add: session_inv_def selectPresetInteractively_def Let_def emit_def
          render_eq init_state_def)
next
  case False
  then show ?thesis
    by (simp add: session_inv_def selectPresetInteractively_def resolve_eq emit_def
          init_state_def cleaned_def)
qed

text \<open>
  The selection that \<^verbatim>\<open>use\<close> opens keeps the discipline of the menu selector: listener
  exactly while pending, cleaned up once settled, nothing on standard output.
\<close>

lemma session_inv_preset: "session_inv (run (selectPresetInteractively env names cur) evs)"
  by (rule session_inv_run [OF session_inv_preset_start])

section \<open>The claims\<close>

text \<open>
  C1 (redraw consistency). The claim asks, of every session, that each render pass after
  the first erases as many lines as the pass before wrote, and that the recorded count is
  the number of lines just written. The selector records the number of entries of its
  line array, and an item or title with a line feed in it puts more lines on the
  terminal than that. For the preset list with the one name \<^verbatim>\<open>a\<close>, line feed, \<^verbatim>\<open>b\<close>:
  the first pass writes four lines and records three, and the pass a Down key triggers
  erases three lines and writes four again, so the passes are not consistent. (On labels
  without line feeds, and as far as lines are line feeds, the counts agree:
  \<open>redraw_consistent_without_line_feeds\<close>.)
\<close>

theorem redraw_mismatch_on_line_feed:
  "render_passes 0 (trace (session tty [''a'' @ [NL] @ ''b''] ''Select a preset:'' 0 []))
     = [(0, 4)]
   \<and> renderedLines (session tty [''a'' @ [NL] @ ''b''] ''Select a preset:'' 0 []) = 3
   \<and> render_passes 0 (trace (session tty [''a'' @ [NL] @ ''b''] ''Select a preset:'' 0 [Down]))
     = [(0, 4), (3, 4)]
   \<and> \<not> consistent (render_passes 0 (trace (session tty [''a'' @ [NL] @ ''b''] ''Select a preset:'' 0 [Down])))"
  by code_simp

text \<open>
  C2 (arrow-key stepping). In a state whose selected index \<open>i\<close> is in range of a list of
  \<open>N\<close> items, the handler turns an Up key into a render of the state with index
  \<open>(i - 1 + N) mod N\<close> and a Down key into a render of the state with index
  \<open>(i + 1) mod N\<close>. The render is on the trace: one erase sequence per line recorded
  before the key, then one write of the block with the title, the items with the new index
  marked, and the hint; the count recorded afterwards is the number of items plus two.
  With the items dev, staging, prod and initial index 1, Down gives index 2 and puts five
  erase sequences and the block with prod marked on the error stream, a second Down gives
  index 0, and Enter then resolves with \<open>Picked dev\<close>.
\<close>

theorem arrow_key_stepping:
  assumes "idx s = Num i" and "0 \<le> i" and "i < int (length (items s))"
  shows "onKeypress Up s = render (s\<lparr>idx := Num ((i - 1 + int (length (items s))) mod int (length (items s)))\<rparr>)
       \<and> idx (onKeypress Up s) = Num ((i - 1 + int (length (items s))) mod int (length (items s)))
       \<and> trace (onKeypress Up s) =
           trace s @ replicate (renderedLines s) (StderrWrite clear_seq)
             @ [StderrWrite
                  (js_join [NL]
                     (hdr s
                      # item_lines (Num ((i - 1 + int (length (items s))) mod int (length (items s)))) 0 (items s)
                      @ [hint])
                   @ [NL])]
       \<and> renderedLines (onKeypress Up s) = length (items s) + 2
       \<and> onKeypress Down s = render (s\<lparr>idx := Num ((i + 1) mod int (length (items s)))\<rparr>)
       \<and> idx (onKeypress Down s) = Num ((i + 1) mod int (length (items s)))
       \<and> trace (onKeypress Down s) =
           trace s @ replicate (renderedLines s) (StderrWrite clear_seq)
             @ [StderrWrite
                  (js_join [NL]
                     (hdr s
                      # item_lines (Num ((i + 1) mod int (length (items s)))) 0 (items s)
                      @ [hint])
                   @ [NL])]
       \<and> renderedLines (onKeypress Down s) = length (items s) + 2
       \<and> idx (session tty [''dev'', ''staging'', ''prod''] ''Select:'' 1 []) = Num 1
       \<and> idx (session tty [''dev'', ''staging'', ''prod''] ''Select:'' 1 [Down]) = Num 2
       \<and> drop (length (trace (session tty [''dev'', ''staging'', ''prod''] ''Select:'' 1 [])))
                (trace (session tty [''dev'', ''staging'', ''prod''] ''Select:'' 1 [Down]))
           = replicate 5 (StderrWrite (CHR 0x1B # ''[1A'' @ CHR 0x1B # ''[2K''))
             @ [StderrWrite
                  (CHR 0x1B # ''[36m'' @ CHR 0x1B # ''[1mSelect:'' @ CHR 0x1B # ''[22m'' @ CHR 0x1B # ''[39m''
                   @ CHR 0x0A # ''   dev''
                   @ CHR 0x0A # ''   staging''
                   @ CHR 0x0A # '' '' @ CHR 0x1B # ''[32m'' @ [CHR 0xE2, CHR 0x80, CHR 0xBA] @ CHR 0x1B # ''[39m ''
                   @ CHR 0x1B # ''[32m'' @ CHR 0x1B # ''[1mprod'' @ CHR 0x1B # ''[22m'' @ CHR 0x1B # ''[39m''
                   @ CHR 0x0A # CHR 0x1B # ''[2m'' @ [CHR 0xE2, CHR 0x86, CHR 0x91] @ ''/''
                   @ [CHR 0xE2, CHR 0x86, CHR 0x93] @ '' to move, Enter to confirm, Esc to cancel''
                   @ CHR 0x1B # ''[22m'' @ [CHR 0x0A])]
       \<and> idx (session tty [''dev'', ''staging'', ''prod''] ''Select:'' 1 [Down, Down]) = Num 0
       \<and> resolved (session tty [''dev'', ''staging'', ''prod''] ''Select:'' 1 [Down, Down, Enter])
           = Some (Picked ''dev'')"
proof -
  let ?n = "int (length (items s))"
  have up: "onKeypress Up s = render (s\<lparr>idx := Num ((i - 1 + ?n) mod ?n)\<rparr>)"
    using assms by (simp add: onKeypress_up step_up_in_range)
  have down: "onKeypress Down s = render (s\<lparr>idx := Num ((i + 1) mod ?n)\<rparr>)"
    using assms by (simp add: onKeypress_down step_down_in_range)
  have upi: "idx (onKeypress Up s) = Num ((i - 1 + ?n) mod ?n)"
    unfolding up by (simp add: render_eq)
  have downi: "idx (onKeypress Down s) = Num ((i + 1) mod ?n)"
    unfolding down by (simp add: render_eq)
  have upt: "trace (onKeypress Up s) =
           trace s @ replicate (renderedLines s) (StderrWrite clear_seq)
             @ [StderrWrite
                  (js_join [NL] (hdr s # item_lines (Num ((i - 1 + ?n) mod ?n)) 0 (items s) @ [hint])
                   @ [NL])]"
    unfolding up by (simp add: render_eq block_def block_lines_def)
  have downt: "trace (onKeypress Down s) =
           trace s @ replicate (renderedLines s) (StderrWrite clear_seq)
             @ [StderrWrite
                  (js_join [NL] (hdr s # item_lines (Num ((i + 1) mod ?n)) 0 (items s) @ [hint])
                   @ [NL])]"
    unfolding down by (simp add: render_eq block_def block_lines_def)
  have upr: "renderedLines (onKeypress Up s) = length (items s) + 2"
    unfolding up by (simp add: render_eq)
  have downr: "renderedLines (onKeypress Down s) = length (items s) + 2"
    unfolding down by (simp add: render_eq)
  have sc0: "idx (session tty [''dev'', ''staging'', ''prod''] ''Select:'' 1 []) = Num 1"
    by code_simp
  have sc1: "idx (session tty [''dev'', ''staging'', ''prod''] ''Select:'' 1 [Down]) = Num 2"
    by code_simp
  have sc1t: "drop (length (trace (session tty [''dev'', ''staging'', ''prod''] ''Select:'' 1 [])))
                (trace (session tty [''dev'', ''staging'', ''prod''] ''Select:'' 1 [Down]))
           = replicate 5 (StderrWrite (CHR 0x1B # ''[1A'' @ CHR 0x1B # ''[2K''))
             @ [StderrWrite
                  (CHR 0x1B # ''[36m'' @ CHR 0x1B # ''[1mSelect:'' @ CHR 0x1B # ''[22m'' @ CHR 0x1B # ''[39m''
                   @ CHR 0x0A # ''   dev''
                   @ CHR 0x0A # ''   staging''
                   @ CHR 0x0A # '' '' @ CHR 0x1B # ''[32m'' @ [CHR 0xE2, CHR 0x80, CHR 0xBA] @ CHR 0x1B # ''[39m ''
                   @ CHR 0x1B # ''[32m'' @ CHR 0x1B # ''[1mprod'' @ CHR 0x1B # ''[22m'' @ CHR 0x1B # ''[39m''
                   @ CHR 0x0A # CHR 0x1B # ''[2m'' @ [CHR 0xE2, CHR 0x86, CHR 0x91] @ ''/''
                   @ [CHR 0xE2, CHR 0x86, CHR 0x93] @ '' to move, Enter to confirm, Esc to cancel''
                   @ CHR 0x1B # ''[22m'' @ [CHR 0x0A])]"
    by code_simp
  have sc2: "idx (session tty [''dev'', ''staging'', ''prod''] ''Select:'' 1 [Down, Down]) = Num 0"
    by code_simp
  have sc3: "resolved (session tty [''dev'', ''staging'', ''prod''] ''Select:'' 1 [Down, Down, Enter])
           = Some (Picked ''dev'')"
    by code_simp
  from up upi upt upr down downi downt downr sc0 sc1 sc1t sc2 sc3 show ?thesis
    by (intro conjI)
qed

theorem arrow_key_stepping_witness:
  "idx (session tty [''dev'', ''staging'', ''prod''] ''Select:'' 1 []) = Num 1
   \<and> idx (onKeypress Up (session tty [''dev'', ''staging'', ''prod''] ''Select:'' 1 [])) = Num 0
   \<and> idx (onKeypress Down (session tty [''dev'', ''staging'', ''prod''] ''Select:'' 1 [])) = Num 2
   \<and> length (trace (onKeypress Down (session tty [''dev'', ''staging'', ''prod''] ''Select:'' 1 [])))
       = length (trace (session tty [''dev'', ''staging'', ''prod''] ''Select:'' 1 [])) + 6"
proof -
  let ?s = "session tty [''dev'', ''staging'', ''prod''] ''Select:'' 1 []"
  have a: "idx ?s = Num 1" by code_simp
  have b: "int (length (items ?s)) = 3" by code_simp
  have c: "(1::int) < int (length (items ?s))" using b by simp
  have r: "renderedLines ?s = 5" by code_simp
  note th = arrow_key_stepping [OF a _ c]
  have 1: "idx (onKeypress Up ?s) = Num 0"
    using th [THEN conjunct2, THEN conjunct1] b by simp
  have 2: "idx (onKeypress Down ?s) = Num 2"
    using th [THEN conjunct2, THEN conjunct2, THEN conjunct2, THEN conjunct2, THEN conjunct2,
              THEN conjunct1] b by simp
  have "length (trace (onKeypress Down ?s)) = length (trace ?s) + renderedLines ?s + 1"
    by (subst th [THEN conjunct2, THEN conjunct2, THEN conjunct2, THEN conjunct2, THEN conjunct2,
                  THEN conjunct2, THEN conjunct1]) simp_all
  then have 3: "length (trace (onKeypress Down ?s)) = length (trace ?s) + 6"
    using r by simp
  from a 1 2 3 show ?thesis by (intro conjI)
qed

text \<open>
  C3 (Enter). When the promise is pending and the selected index is \<open>i\<close>, within the item
  list, a return or enter key resolves with \<open>Picked\<close> of item \<open>i\<close>. The handler then
  only erases the recorded lines, stops the input and resolves: the trace gains no render
  pass, and no later key event changes the state.
\<close>

theorem enter_resolves_picked:
  assumes "is_enter k" and "idx s = Num (int i)" and "i < length (items s)"
    and "resolved s = None"
  shows "resolved (onKeypress (Some k) s) = Some (Picked (items s ! i))
       \<and> trace (onKeypress (Some k) s) =
           trace s @ replicate (renderedLines s) (StderrWrite clear_seq)
             @ stop_effects (needClose s) @ [Resolve (Picked (items s ! i))]
       \<and> render_passes 0 (trace (onKeypress (Some k) s)) = render_passes 0 (trace s)
       \<and> run (onKeypress (Some k) s) evs = onKeypress (Some k) s"
proof -
  have it: "item_at (items s) (idx s) = Picked (items s ! i)"
    using assms(2,3) by (simp add: item_at_def)
  have eq: "onKeypress (Some k) s = resolve (Picked (items s ! i)) (stop (cleanup s))"
    using onKeypress_enter [OF assms(1), of s] it by simp
  have r: "resolved (onKeypress (Some k) s) = Some (Picked (items s ! i))"
    using assms(4) by (simp add: eq exit_eq)
  have t: "trace (onKeypress (Some k) s) =
           trace s @ replicate (renderedLines s) (StderrWrite clear_seq)
             @ stop_effects (needClose s) @ [Resolve (Picked (items s ! i))]"
    by (simp add: eq exit_eq)
  have p: "render_passes 0 (trace (onKeypress (Some k) s)) = render_passes 0 (trace s)"
    unfolding t by (rule render_passes_exit)
  have "\<not> listening (onKeypress (Some k) s)"
    by (simp add: eq exit_eq)
  then have q: "run (onKeypress (Some k) s) evs = onKeypress (Some k) s"
    by (rule run_not_listening)
  from r t p q show ?thesis by blast
qed

theorem enter_resolves_picked_witness:
  "resolved (onKeypress Enter (session tty [''dev'', ''staging'', ''prod''] ''Select:'' 1 [Down]))
     = Some (Picked ''prod'')
   \<and> render_passes 0 (trace (onKeypress Enter (session tty [''dev'', ''staging'', ''prod''] ''Select:'' 1 [Down])))
     = [(0, 5), (5, 5)]
   \<and> run (onKeypress Enter (session tty [''dev'', ''staging'', ''prod''] ''Select:'' 1 [Down])) [Down, Up]
     = onKeypress Enter (session tty [''dev'', ''staging'', ''prod''] ''Select:'' 1 [Down])"
proof -
  let ?s = "session tty [''dev'', ''staging'', ''prod''] ''Select:'' 1 [Down]"
  let ?k = "\<lparr>name = Some ''return'', ctrl = False\<rparr>"
  have k: "is_enter ?k" by (simp add: is_enter_def)
  have a: "idx ?s = Num (int 2)" by code_simp
  have b: "2 < length (items ?s)" by code_simp
  have c: "resolved ?s = None" by code_simp
  have d: "items ?s ! 2 = ''prod''" by code_simp
  have e: "render_passes 0 (trace ?s) = [(0, 5), (5, 5)]" by code_simp
  have f: "Enter = Some ?k" by (simp add: Enter_def key_named_def)
  note th = enter_resolves_picked [OF k a b c, of "[Down, Up]"]
  have 1: "resolved (onKeypress Enter ?s) = Some (Picked ''prod'')"
    using th [THEN conjunct1] d f by simp
  have 2: "render_passes 0 (trace (onKeypress Enter ?s)) = [(0, 5), (5, 5)]"
    using th [THEN conjunct2, THEN conjunct2, THEN conjunct1] e f by simp
  have 3: "run (onKeypress Enter ?s) [Down, Up] = onKeypress Enter ?s"
    using th [THEN conjunct2, THEN conjunct2, THEN conjunct2] f by simp
  from 1 2 3 show ?thesis by blast
qed

text \<open>
  C7 (cyclic invariant). In a session on a terminal, started on a non-empty list at an
  index in range, as many Down keys as there are items bring the selected index back to
  the initial one. On a list of one item the index is 0 whatever initial index is given,
  Up and Down leave it there, and Enter resolves with \<open>Picked\<close> of that item, also after
  an Up or a Down.
\<close>

theorem cyclic_invariant:
  assumes "stdinIsTTY env \<or> ttyOpens env"
    and "0 \<le> i0" and "i0 < int (length xs)"
  shows "idx (session env xs title i0 []) = Num i0
       \<and> idx (session env xs title i0 (replicate (length xs) Down)) = Num i0
       \<and> idx (session env [x] title j []) = Num 0
       \<and> idx (session env [x] title j [Up]) = Num 0
       \<and> idx (session env [x] title j [Down]) = Num 0
       \<and> resolved (session env [x] title j [Enter]) = Some (Picked x)
       \<and> resolved (session env [x] title j [Up, Enter]) = Some (Picked x)
       \<and> resolved (session env [x] title j [Down, Enter]) = Some (Picked x)"
proof -
  let ?s = "selectMenuInteractively env xs title i0"
  note sf = start_fields [OF assms(1)]
  have clamp: "max 0 (min i0 (max (int (length xs) - 1) 0)) = i0"
    using assms(2,3) by simp
  have i: "idx ?s = Num i0" using sf(2) [of xs title i0] clamp by simp
  have l: "listening ?s" by (rule sf(3))
  have it: "items ?s = xs" by (rule sf(1))
  have r: "i0 < int (length (items ?s))" using assms(3) it by simp
  have pos: "0 < int (length xs)" using assms(2,3) by linarith
  have "idx (run ?s (replicate (length xs) Down)) = Num ((i0 + int (length xs)) mod int (length xs))"
    using run_downs [OF l i assms(2) r, of "length xs"] it by simp
  also have "(i0 + int (length xs)) mod int (length xs) = i0"
    using assms(2,3) by simp
  finally have cyc: "idx (session env xs title i0 (replicate (length xs) Down)) = Num i0"
    by (simp add: session_def)
  let ?t = "selectMenuInteractively env [x] title j"
  have i1: "idx ?t = Num 0" using sf(2) [of "[x]" title j] by simp
  have l1: "listening ?t" by (rule sf(3))
  have it1: "items ?t = [x]" by (rule sf(1))
  have r1: "resolved ?t = None" by (rule sf(4))
  note single = deliver_up_single [OF l1 it1 i1]
  have ent: "resolved (deliver s Enter) = Some (Picked x)"
    if "listening s" "items s = [x]" "idx s = Num 0" "resolved s = None" for s
    using that
    by (simp add: deliver_def Enter_def key_named_def onKeypress_enter is_enter_def exit_eq item_at_def)
  have up_keeps: "listening (deliver ?t Up)" "items (deliver ?t Up) = [x]" "resolved (deliver ?t Up) = None"
    using l1 it1 r1 by (simp_all add: deliver_def onKeypress_up render_eq)
  have down_keeps: "listening (deliver ?t Down)" "items (deliver ?t Down) = [x]" "resolved (deliver ?t Down) = None"
    using l1 it1 r1 by (simp_all add: deliver_def onKeypress_down render_eq)
  have e0: "resolved (session env [x] title j [Enter]) = Some (Picked x)"
    using ent [OF l1 it1 i1 r1] by (simp add: session_def)
  have e1: "resolved (session env [x] title j [Up, Enter]) = Some (Picked x)"
    using ent [OF up_keeps(1,2) single(1) up_keeps(3)] by (simp add: session_def)
  have e2: "resolved (session env [x] title j [Down, Enter]) = Some (Picked x)"
    using ent [OF down_keeps(1,2) single(2) down_keeps(3)] by (simp add: session_def)
  have s0: "idx (session env xs title i0 []) = Num i0" using i by (simp add: session_def)
  have s1: "idx (session env [x] title j []) = Num 0" using i1 by (simp add: session_def)
  have s2: "idx (session env [x] title j [Up]) = Num 0" using single(1) by (simp add: session_def)
  have s3: "idx (session env [x] title j [Down]) = Num 0" using single(2) by (simp add: session_def)
  from s0 cyc s1 s2 s3 e0 e1 e2 show ?thesis by blast
qed

theorem cyclic_invariant_witness:
  "idx (session tty [''a'', ''b'', ''c'', ''d''] ''Select:'' 2 [Down, Down, Down, Down]) = Num 2
   \<and> idx (session tty [''only''] ''Select:'' 0 [Up]) = Num 0
   \<and> resolved (session tty [''only''] ''Select:'' 0 [Down, Enter]) = Some (Picked ''only'')"
proof -
  have e: "stdinIsTTY tty \<or> ttyOpens tty" by (simp add: tty_def)
  have a: "(0::int) \<le> 2" by simp
  have b: "(2::int) < int (length [''a'', ''b'', ''c'', ''d''])" by simp
  have r: "replicate (length [''a'', ''b'', ''c'', ''d'']) Down = [Down, Down, Down, Down]"
    by (simp add: numeral_eq_Suc)
  note th = cyclic_invariant [OF e a b, of "''Select:''" "''only''" 0]
  show ?thesis using th r by simp
qed

text \<open>
  C4 (cancel and cleanup). The claim asks that on every exit path the selector erases
  its rendered lines, besides restoring cooked mode, removing the listener and closing a
  stream it opened. The exit erases as many lines as \<^verbatim>\<open>render\<close> recorded, which is the
  number of entries of the line array. For the preset list with the one name \<^verbatim>\<open>a\<close>, line
  feed, \<^verbatim>\<open>b\<close>, the block drawn has four lines; Escape resolves with \<open>Cancelled\<close>, removes
  the listener and restores cooked mode, but emits three erase sequences, and so do Enter
  and Ctrl+C: the first line of the block stays on the terminal. (What holds of every
  session is \<open>cleanup_on_exit\<close>.)
\<close>

theorem exit_leaves_a_line_on_line_feed:
  "render_passes 0 (trace (session tty [''a'' @ [NL] @ ''b''] ''Select a preset:'' 0 [])) = [(0, 4)]
   \<and> resolved (session tty [''a'' @ [NL] @ ''b''] ''Select a preset:'' 0 [Escape]) = Some Cancelled
   \<and> drop (length (trace (session tty [''a'' @ [NL] @ ''b''] ''Select a preset:'' 0 [])))
        (trace (session tty [''a'' @ [NL] @ ''b''] ''Select a preset:'' 0 [Escape]))
       = replicate 3 (StderrWrite (CHR 0x1B # ''[1A'' @ CHR 0x1B # ''[2K''))
         @ [ListenOff, SetRawMode False, Pause, Resolve Cancelled]
   \<and> pending 0 (trace (session tty [''a'' @ [NL] @ ''b''] ''Select a preset:'' 0 [Escape])) = 3
   \<and> pending 0 (trace (session tty [''a'' @ [NL] @ ''b''] ''Select a preset:'' 0 [Enter])) = 3
   \<and> pending 0 (trace (session tty [''a'' @ [NL] @ ''b''] ''Select a preset:'' 0 [CtrlC])) = 3"
  by code_simp

text \<open>
  C6 (stream separation). No effect of a session writes to standard output: every write
  of the trace, the blocks with title, items and hint as well as the erase sequences and
  the report of a non-interactive environment, goes to the error stream, and the bytes on
  standard output are none.
\<close>

theorem stream_separation:
  "(\<forall>e \<in> set (trace (session env xs title i0 evs)). stream_of e \<noteq> Some Stdout)
   \<and> stdout_of (trace (session env xs title i0 evs)) = []"
proof -
  have a: "\<forall>e \<in> set (trace (session env xs title i0 evs)). stream_of e \<noteq> Some Stdout"
    using session_inv_session [of env xs title i0 evs] by (simp add: session_inv_def)
  have b: "stdout_of t = []" if "\<forall>e \<in> set t. stream_of e \<noteq> Some Stdout" for t
    using that by (induction t) (auto split: effect.splits)
  from a b [OF a] show ?thesis by blast
qed

theorem stream_separation_witness:
  "StderrWrite clear_seq \<in> set (trace (session tty [''a''] ''Select:'' 0 [Down]))
   \<and> stream_of (StderrWrite clear_seq) \<noteq> Some Stdout
   \<and> stdout_of (trace (session tty [''a''] ''Select:'' 0 [Down])) = []"
proof -
  have m: "StderrWrite clear_seq \<in> set (trace (session tty [''a''] ''Select:'' 0 [Down]))"
    by code_simp
  note th = stream_separation [of tty "[''a'']" "''Select:''" 0 "[Down]"]
  from th m show ?thesis by blast
qed

text \<open>
  C8 (shell-export formatting). For a preset of the loaded configuration whose pairs all
  pass validation, and a save that succeeds, what \<^verbatim>\<open>use\<close> writes to standard output is
  the statements of the pairs in order, each followed by one line feed. Each statement
  contains no line feed and reads \<^verbatim>\<open>export KEY=\<close>, then the value between single quotes
  with every single quote of the value replaced by the four characters quote, backslash,
  quote, quote, then a semicolon; and a shell reading the quoted value gets the value back.
\<close>

theorem shell_export_format:
  assumes "map_of (envs cfg) n = Some (Some vars)" and "\<forall>kv \<in> set vars. valid_pair kv"
    and "writeFails rt = None" and "\<not> renameFails rt"
  shows "stdout_of (use_preset rt cfg n) = concat (map (\<lambda>kv. export_stmt kv @ [NL]) vars)
       \<and> (\<forall>kv \<in> set vars.
            NL \<notin> set (export_stmt kv)
          \<and> export_stmt kv =
              ''export '' @ fst kv @ ''='' @ [SQ]
                @ concat (map (\<lambda>ch. if ch = SQ then [SQ, BS, SQ, SQ] else [ch]) (snd kv))
                @ [SQ] @ '';''
          \<and> sh_word False (shellQuote (snd kv)) = Some (snd kv))"
proof -
  have w: "Throw \<notin> set (writeConfig rt (cfg\<lparr>current := Some n\<rparr>))"
    using assms(3,4) by (simp add: writeConfig_ok)
  have "stdout_of (use_preset rt cfg n) = export_out vars"
    using use_preset_valid [OF assms(1,2), of rt] w by simp
  then have a: "stdout_of (use_preset rt cfg n) = concat (map (\<lambda>kv. export_stmt kv @ [NL]) vars)"
    by (simp add: export_out_concat)
  have b: "NL \<notin> set (export_stmt kv)" if "kv \<in> set vars" for kv
    using that assms(2) by (simp add: export_stmt_one_line)
  have c: "export_stmt kv =
              ''export '' @ fst kv @ ''='' @ [SQ]
                @ concat (map (\<lambda>ch. if ch = SQ then [SQ, BS, SQ, SQ] else [ch]) (snd kv))
                @ [SQ] @ '';''" for kv
    by (simp add: export_stmt_def shellQuote_def replace_quotes_concat)
  from a b c sh_word_shellQuote show ?thesis by blast
qed

theorem shell_export_format_witness:
  "stdout_of (use_preset demo_rt demo_cfg ''dev'')
     = ''export API_URL='' @ [SQ] @ ''it'' @ [SQ, BS, SQ, SQ] @ ''s'' @ [SQ] @ '';'' @ [NL]
       @ ''export N='' @ [SQ] @ ''1'' @ [SQ] @ '';'' @ [NL]
   \<and> sh_word False (shellQuote (''it'' @ [SQ] @ ''s'')) = Some (''it'' @ [SQ] @ ''s'')"
proof -
  let ?vars = "[(''API_URL'', ''it'' @ [SQ] @ ''s''), (''N'', ''1'')]"
  have m: "map_of (envs demo_cfg) ''dev'' = Some (Some ?vars)"
    by (simp add: demo_cfg_def)
  have v: "\<forall>kv \<in> set ?vars. valid_pair kv"
    by (simp add: valid_pair_def isValidKey_def key_char_def code_def hasNewline_def
          CR_def NL_def SQ_def)
  have f: "writeFails demo_rt = None" "\<not> renameFails demo_rt"
    by (simp_all add: demo_rt_def)
  note th = shell_export_format [OF m v f]
  have 1: "stdout_of (use_preset demo_rt demo_cfg ''dev'')
     = ''export API_URL='' @ [SQ] @ ''it'' @ [SQ, BS, SQ, SQ] @ ''s'' @ [SQ] @ '';'' @ [NL]
       @ ''export N='' @ [SQ] @ ''1'' @ [SQ] @ '';'' @ [NL]"
    using th [THEN conjunct1]
    by (simp add: export_stmt_def shellQuote_def SQ_def)
  have 2: "sh_word False (shellQuote (''it'' @ [SQ] @ ''s'')) = Some (''it'' @ [SQ] @ ''s'')"
    using th [THEN conjunct2] by simp
  from 1 2 show ?thesis by blast
qed

text \<open>
  C10 (atomicity of \<^verbatim>\<open>use\<close>). Let the name be an own key of the loaded configuration
  with a preset. If some pair of the preset fails validation (key not of the form
  \<^verbatim>\<open>^[A-Z0-9_]+$\<close>, or a carriage return or line feed in the value), the command only
  reports on the error stream and exits with status 1: nothing reaches standard output and
  no file changes. Conversely, any effect other than a report or an exit occurs only when
  all pairs pass. When all pairs pass, the command saves the configuration with the
  current preset set to the name and then, unless the save threw, writes the export lines;
  with a save that succeeds the effects are exactly: make the directory, write the
  temporary file, rename it over the configuration file, write the export lines. A
  non-empty name given on the command line is used as it is.
\<close>

theorem use_is_atomic:
  assumes "map_of (envs cfg) n = Some (Some vars)"
  shows "((\<exists>kv \<in> set vars. \<not> valid_pair kv) \<longrightarrow>
            list_all report_only (use_preset rt cfg n)
          \<and> last (use_preset rt cfg n) = Exit 1
          \<and> stdout_of (use_preset rt cfg n) = []
          \<and> apply_effects fs (use_preset rt cfg n) = fs)
       \<and> ((\<exists>e \<in> set (use_preset rt cfg n). \<not> report_only e) \<longrightarrow> (\<forall>kv \<in> set vars. valid_pair kv))
       \<and> ((\<forall>kv \<in> set vars. valid_pair kv) \<longrightarrow>
            use_preset rt cfg n =
              writeConfig rt (cfg\<lparr>current := Some n\<rparr>)
              @ (if Throw \<in> set (writeConfig rt (cfg\<lparr>current := Some n\<rparr>)) then []
                 else [StdoutWrite (export_out vars)]))
       \<and> ((\<forall>kv \<in> set vars. valid_pair kv) \<and> writeFails rt = None \<and> \<not> renameFails rt \<longrightarrow>
            use_preset rt cfg n =
              [MkDir (configDir rt),
               WriteFile (tmp_path rt) (JSON_stringify rt (cfg\<lparr>current := Some n\<rparr>) @ [NL]),
               Rename (tmp_path rt) (CONFIG_PATH rt),
               StdoutWrite (export_out vars)]
          \<and> apply_effects fs (use_preset rt cfg n) (CONFIG_PATH rt)
              = Some (JSON_stringify rt (cfg\<lparr>current := Some n\<rparr>) @ [NL]))
       \<and> (n \<noteq> [] \<longrightarrow> cmdUse rt env cfg (Some n) evs = use_preset rt cfg n)"
proof -
  have a: "list_all report_only (use_preset rt cfg n)
          \<and> last (use_preset rt cfg n) = Exit 1
          \<and> stdout_of (use_preset rt cfg n) = []
          \<and> apply_effects fs (use_preset rt cfg n) = fs"
    if "\<exists>kv \<in> set vars. \<not> valid_pair kv"
    using use_preset_invalid [OF assms that, of rt]
    by (simp add: stdout_of_report apply_effects_report)
  have b: "\<forall>kv \<in> set vars. valid_pair kv" if "\<exists>e \<in> set (use_preset rt cfg n). \<not> report_only e"
  proof (rule ccontr)
    assume "\<not> (\<forall>kv \<in> set vars. valid_pair kv)"
    then have "list_all report_only (use_preset rt cfg n)"
      using use_preset_invalid(1) [OF assms, of rt] by simp
    with that show False by (simp add: list_all_iff)
  qed
  have c: "use_preset rt cfg n =
              writeConfig rt (cfg\<lparr>current := Some n\<rparr>)
              @ (if Throw \<in> set (writeConfig rt (cfg\<lparr>current := Some n\<rparr>)) then []
                 else [StdoutWrite (export_out vars)])"
    if "\<forall>kv \<in> set vars. valid_pair kv"
    by (rule use_preset_valid [OF assms that])
  have d: "use_preset rt cfg n =
              [MkDir (configDir rt),
               WriteFile (tmp_path rt) (JSON_stringify rt (cfg\<lparr>current := Some n\<rparr>) @ [NL]),
               Rename (tmp_path rt) (CONFIG_PATH rt),
               StdoutWrite (export_out vars)]
          \<and> apply_effects fs (use_preset rt cfg n) (CONFIG_PATH rt)
              = Some (JSON_stringify rt (cfg\<lparr>current := Some n\<rparr>) @ [NL])"
    if "(\<forall>kv \<in> set vars. valid_pair kv) \<and> writeFails rt = None \<and> \<not> renameFails rt"
  proof -
    from that have v: "\<forall>kv \<in> set vars. valid_pair kv" and f: "writeFails rt = None" "\<not> renameFails rt"
      by simp_all
    have w: "writeConfig rt (cfg\<lparr>current := Some n\<rparr>) =
               [MkDir (configDir rt),
                WriteFile (tmp_path rt) (JSON_stringify rt (cfg\<lparr>current := Some n\<rparr>) @ [NL]),
                Rename (tmp_path rt) (CONFIG_PATH rt)]"
      by (rule writeConfig_ok [OF f])
    have u: "use_preset rt cfg n = writeConfig rt (cfg\<lparr>current := Some n\<rparr>) @ [StdoutWrite (export_out vars)]"
      using c [OF v] w by simp
    have "apply_effects fs (use_preset rt cfg n)
            = apply_effects fs (writeConfig rt (cfg\<lparr>current := Some n\<rparr>))"
      unfolding u by (simp add: apply_effects_def)
    then have ap: "apply_effects fs (use_preset rt cfg n) (CONFIG_PATH rt)
              = Some (JSON_stringify rt (cfg\<lparr>current := Some n\<rparr>) @ [NL])"
      by (simp add: apply_effects_writeConfig_ok(1) [OF f])
    have "use_preset rt cfg n =
              [MkDir (configDir rt),
               WriteFile (tmp_path rt) (JSON_stringify rt (cfg\<lparr>current := Some n\<rparr>) @ [NL]),
               Rename (tmp_path rt) (CONFIG_PATH rt),
               StdoutWrite (export_out vars)]"
      using u w by simp
    with ap show ?thesis by blast
  qed
  have e: "cmdUse rt env cfg (Some n) evs = use_preset rt cfg n" if "n \<noteq> []"
    using that by (simp add: cmdUse_def)
  from a b c d e show ?thesis by blast
qed

theorem use_is_atomic_witness:
  "stdout_of (cmdUse demo_rt tty demo_cfg (Some ''bad'') []) = []
   \<and> apply_effects Map.empty (cmdUse demo_rt tty demo_cfg (Some ''bad'') []) = Map.empty
   \<and> last (cmdUse demo_rt tty demo_cfg (Some ''bad'') []) = Exit 1
   \<and> apply_effects Map.empty (cmdUse demo_rt tty demo_cfg (Some ''dev'') []) (CONFIG_PATH demo_rt)
       = Some demo_saved"
proof -
  let ?bad = "[(''OK'', ''1''), (''lower'', ''x'')]"
  let ?dev = "[(''API_URL'', ''it'' @ [SQ] @ ''s''), (''N'', ''1'')]"
  have mb: "map_of (envs demo_cfg) ''bad'' = Some (Some ?bad)"
    by (simp add: demo_cfg_def)
  have md: "map_of (envs demo_cfg) ''dev'' = Some (Some ?dev)"
    by (simp add: demo_cfg_def)
  have ib: "\<exists>kv \<in> set ?bad. \<not> valid_pair kv"
    by (simp add: valid_pair_def isValidKey_def key_char_def code_def)
  have vd: "\<forall>kv \<in> set ?dev. valid_pair kv"
    by (simp add: valid_pair_def isValidKey_def key_char_def code_def hasNewline_def
          CR_def NL_def SQ_def)
  have f: "writeFails demo_rt = None" "\<not> renameFails demo_rt"
    by (simp_all add: demo_rt_def)
  have c: "demo_cfg\<lparr>current := Some ''dev''\<rparr> = demo_cfg"
    by (simp add: demo_cfg_def)
  have j: "JSON_stringify demo_rt (demo_cfg\<lparr>current := Some ''dev''\<rparr>) @ [NL] = demo_saved"
    unfolding c using stringify_demo_cfg by (simp add: demo_rt_def)
  have nb: "''bad'' \<noteq> []" and nd: "''dev'' \<noteq> []" by simp_all
  note tb = use_is_atomic [OF mb, of demo_rt Map.empty tty "[]"]
  note td = use_is_atomic [OF md, of demo_rt Map.empty tty "[]"]
  have cb: "cmdUse demo_rt tty demo_cfg (Some ''bad'') [] = use_preset demo_rt demo_cfg ''bad''"
    using tb nb by blast
  have cd: "cmdUse demo_rt tty demo_cfg (Some ''dev'') [] = use_preset demo_rt demo_cfg ''dev''"
    using td nd by blast
  have 1: "stdout_of (use_preset demo_rt demo_cfg ''bad'') = []
         \<and> apply_effects Map.empty (use_preset demo_rt demo_cfg ''bad'') = Map.empty
         \<and> last (use_preset demo_rt demo_cfg ''bad'') = Exit 1"
    using tb ib by blast
  have 2: "apply_effects Map.empty (use_preset demo_rt demo_cfg ''dev'') (CONFIG_PATH demo_rt)
       = Some (JSON_stringify demo_rt (demo_cfg\<lparr>current := Some ''dev''\<rparr>) @ [NL])"
    using td vd f(1,2) by blast
  from 1 2 cb cd j show ?thesis by simp
qed

text \<open>
  C5 (non-interactive fallback). When standard input is no terminal, the first effect of
  a session is the attempt to open the terminal device. If that open fails, the whole
  session, whatever keys are sent, is: the one attempt, the report of a non-interactive
  environment on the error stream, and the resolution with \<open>Cancelled\<close>; there is no
  second attempt and no render. \<^verbatim>\<open>cmdList\<close> on a configuration with presets then prints
  the plain list on standard output: a header line with the word Presets and the number
  of names, then for each name in sorted order one line with a bullet (a star for the
  current preset), the name, and between brackets the number of its variables, followed
  by the word current for the current preset.
\<close>

theorem non_interactive_fallback:
  assumes "\<not> stdinIsTTY env" and "names = js_sort rt (map fst (envs cfg))"
  shows "(\<exists>rest. trace (session env xs title i0 evs) = OpenTty # rest)
       \<and> (\<not> ttyOpens env \<longrightarrow>
            trace (session env xs title i0 evs)
              = [OpenTty, ConsoleError non_interactive_msg, Resolve Cancelled]
          \<and> resolved (session env xs title i0 evs) = Some Cancelled)
       \<and> (\<not> ttyOpens env \<and> names \<noteq> [] \<longrightarrow>
            cmdList rt env cfg evs
              = [OpenTty,
                 ConsoleError (c_red ''Non-interactive environment. Use command form instead.''),
                 Resolve Cancelled,
                 ConsoleLog (c_cyan (c_bold ''Presets'') @ '' '' @ c_dim (''('' @ dec (length names) @ '')''))]
                @ map (\<lambda>n. ConsoleLog
                        ('' '' @ (if current cfg = Some n then c_green star_glyph else c_gray bullet_glyph)
                         @ '' '' @ (if current cfg = Some n then c_green (c_bold n) else n)
                         @ '' '' @ c_dim (''[''
                              @ dec (case preset_of cfg n of Some vars \<Rightarrow> length vars | None \<Rightarrow> 0)
                              @ (if current cfg = Some n then middle_dot @ ''current'' else [])
                              @ '']'')))
                    names
          \<and> stdout_of (cmdList rt env cfg evs)
              = c_cyan (c_bold ''Presets'') @ '' '' @ c_dim (''('' @ dec (length names) @ '')'') @ [NL]
                @ concat (map (\<lambda>n.
                        '' '' @ (if current cfg = Some n then c_green star_glyph else c_gray bullet_glyph)
                         @ '' '' @ (if current cfg = Some n then c_green (c_bold n) else n)
                         @ '' '' @ c_dim (''[''
                              @ dec (case preset_of cfg n of Some vars \<Rightarrow> length vars | None \<Rightarrow> 0)
                              @ (if current cfg = Some n then middle_dot @ ''current'' else [])
                              @ '']'')
                         @ [NL])
                    names))"
proof -
  have a: "\<exists>rest. trace (session env xs title i0 evs) = OpenTty # rest"
  proof (cases "ttyOpens env")
    case True
    then have "\<exists>r0. trace (selectMenuInteractively env xs title i0) = OpenTty # r0"
      using assms(1) by (simp add: start_interactive render_eq init_state_def)
    then obtain r0 where r0: "trace (selectMenuInteractively env xs title i0) = OpenTty # r0" ..
    from trace_run_extends [of "selectMenuInteractively env xs title i0" evs]
    obtain u where "trace (session env xs title i0 evs) = trace (selectMenuInteractively env xs title i0) @ u"
      by (auto simp add: session_def)
    with r0 show ?thesis by simp
  next
    case False
    then show ?thesis by (simp add: session_failed [OF assms(1)] init_state_def)
  qed
  have b: "trace (session env xs title i0 evs)
              = [OpenTty, ConsoleError non_interactive_msg, Resolve Cancelled]
          \<and> resolved (session env xs title i0 evs) = Some Cancelled"
    if "\<not> ttyOpens env" for xs title i0
    by (simp add: session_failed [OF assms(1) that] init_state_def)
  have c0: "cmdList rt env cfg evs
              = [OpenTty, ConsoleError non_interactive_msg, Resolve Cancelled] @ list_presets cfg names"
    if "\<not> ttyOpens env \<and> names \<noteq> []"
  proof -
    from that have t: "\<not> ttyOpens env" and ne: "names \<noteq> []" by simp_all
    note s = b [OF t, of names "''Select a preset:''" "current_index names (current cfg)"]
    show ?thesis
      using ne s assms(2) by (simp add: cmdList_def Let_def session_def)
  qed
  have c: "cmdList rt env cfg evs
              = [OpenTty,
                 ConsoleError (c_red ''Non-interactive environment. Use command form instead.''),
                 Resolve Cancelled,
                 ConsoleLog (c_cyan (c_bold ''Presets'') @ '' '' @ c_dim (''('' @ dec (length names) @ '')''))]
                @ map (\<lambda>n. ConsoleLog
                        ('' '' @ (if current cfg = Some n then c_green star_glyph else c_gray bullet_glyph)
                         @ '' '' @ (if current cfg = Some n then c_green (c_bold n) else n)
                         @ '' '' @ c_dim (''[''
                              @ dec (case preset_of cfg n of Some vars \<Rightarrow> length vars | None \<Rightarrow> 0)
                              @ (if current cfg = Some n then middle_dot @ ''current'' else [])
                              @ '']'')))
                    names"
    if "\<not> ttyOpens env \<and> names \<noteq> []"
    unfolding c0 [OF that] list_presets_eq non_interactive_msg_def by simp
  have d: "stdout_of (cmdList rt env cfg evs)
              = c_cyan (c_bold ''Presets'') @ '' '' @ c_dim (''('' @ dec (length names) @ '')'') @ [NL]
                @ concat (map (\<lambda>n.
                        '' '' @ (if current cfg = Some n then c_green star_glyph else c_gray bullet_glyph)
                         @ '' '' @ (if current cfg = Some n then c_green (c_bold n) else n)
                         @ '' '' @ c_dim (''[''
                              @ dec (case preset_of cfg n of Some vars \<Rightarrow> length vars | None \<Rightarrow> 0)
                              @ (if current cfg = Some n then middle_dot @ ''current'' else [])
                              @ '']'')
                         @ [NL])
                    names)"
    if "\<not> ttyOpens env \<and> names \<noteq> []"
    unfolding c [OF that] by (simp add: stdout_of_ConsoleLogs del: dec.simps)
  from a b c d show ?thesis by blast
qed

theorem non_interactive_fallback_witness:
  "trace (session \<lparr>stdinIsTTY = False, ttyOpens = False\<rparr> [''bad'', ''dev''] ''Select a preset:'' 1 [Down, Enter])
     = [OpenTty, ConsoleError non_interactive_msg, Resolve Cancelled]
   \<and> stdout_of (cmdList demo_rt \<lparr>stdinIsTTY = False, ttyOpens = False\<rparr> demo_cfg [Down, Enter])
     = CHR 0x1B # ''[36m'' @ CHR 0x1B # ''[1mPresets'' @ CHR 0x1B # ''[22m'' @ CHR 0x1B # ''[39m ''
       @ CHR 0x1B # ''[2m(2)'' @ CHR 0x1B # ''[22m''
       @ CHR 0x0A # '' '' @ CHR 0x1B # ''[90m'' @ [CHR 0xE2, CHR 0x80, CHR 0xA2] @ CHR 0x1B # ''[39m bad ''
       @ CHR 0x1B # ''[2m[2]'' @ CHR 0x1B # ''[22m''
       @ CHR 0x0A # '' '' @ CHR 0x1B # ''[32m'' @ [CHR 0xE2, CHR 0x98, CHR 0x85] @ CHR 0x1B # ''[39m ''
       @ CHR 0x1B # ''[32m'' @ CHR 0x1B # ''[1mdev'' @ CHR 0x1B # ''[22m'' @ CHR 0x1B # ''[39m ''
       @ CHR 0x1B # ''[2m[2 '' @ [CHR 0xC2, CHR 0xB7] @ '' current]'' @ CHR 0x1B # ''[22m''
       @ [CHR 0x0A]"
proof -
  let ?env = "\<lparr>stdinIsTTY = False, ttyOpens = False\<rparr>"
  let ?names = "[''bad'', ''dev'']"
  have e: "\<not> stdinIsTTY ?env" "\<not> ttyOpens ?env" by simp_all
  have n: "?names = js_sort demo_rt (map fst (envs demo_cfg))"
    by code_simp
  have ne: "\<not> ttyOpens ?env \<and> ?names \<noteq> []" by simp
  note th = non_interactive_fallback [OF e(1) n, of "[''bad'', ''dev'']" "''Select a preset:''" 1 "[Down, Enter]"]
  have 1: "trace (session ?env [''bad'', ''dev''] ''Select a preset:'' 1 [Down, Enter])
     = [OpenTty, ConsoleError non_interactive_msg, Resolve Cancelled]"
    by (rule th [THEN conjunct2, THEN conjunct1, THEN mp, OF e(2), THEN conjunct1])
  note out = th [THEN conjunct2, THEN conjunct2, THEN mp, OF ne, THEN conjunct2]
  have lit: "c_cyan (c_bold ''Presets'') @ '' '' @ c_dim (''('' @ dec (length ?names) @ '')'') @ [NL]
                @ concat (map (\<lambda>n.
                        '' '' @ (if current demo_cfg = Some n then c_green star_glyph else c_gray bullet_glyph)
                         @ '' '' @ (if current demo_cfg = Some n then c_green (c_bold n) else n)
                         @ '' '' @ c_dim (''[''
                              @ dec (case preset_of demo_cfg n of Some vars \<Rightarrow> length vars | None \<Rightarrow> 0)
                              @ (if current demo_cfg = Some n then middle_dot @ ''current'' else [])
                              @ '']'')
                         @ [NL])
                    ?names)
     = CHR 0x1B # ''[36m'' @ CHR 0x1B # ''[1mPresets'' @ CHR 0x1B # ''[22m'' @ CHR 0x1B # ''[39m ''
       @ CHR 0x1B # ''[2m(2)'' @ CHR 0x1B # ''[22m''
       @ CHR 0x0A # '' '' @ CHR 0x1B # ''[90m'' @ [CHR 0xE2, CHR 0x80, CHR 0xA2] @ CHR 0x1B # ''[39m bad ''
       @ CHR 0x1B # ''[2m[2]'' @ CHR 0x1B # ''[22m''
       @ CHR 0x0A # '' '' @ CHR 0x1B # ''[32m'' @ [CHR 0xE2, CHR 0x98, CHR 0x85] @ CHR 0x1B # ''[39m ''
       @ CHR 0x1B # ''[32m'' @ CHR 0x1B # ''[1mdev'' @ CHR 0x1B # ''[22m'' @ CHR 0x1B # ''[39m ''
       @ CHR 0x1B # ''[2m[2 '' @ [CHR 0xC2, CHR 0xB7] @ '' current]'' @ CHR 0x1B # ''[22m''
       @ [CHR 0x0A]"
    by code_simp
  have 2: "stdout_of (cmdList demo_rt ?env demo_cfg [Down, Enter])
     = CHR 0x1B # ''[36m'' @ CHR 0x1B # ''[1mPresets'' @ CHR 0x1B # ''[22m'' @ CHR 0x1B # ''[39m ''
       @ CHR 0x1B # ''[2m(2)'' @ CHR 0x1B # ''[22m''
       @ CHR 0x0A # '' '' @ CHR 0x1B # ''[90m'' @ [CHR 0xE2, CHR 0x80, CHR 0xA2] @ CHR 0x1B # ''[39m bad ''
       @ CHR 0x1B # ''[2m[2]'' @ CHR 0x1B # ''[22m''
       @ CHR 0x0A # '' '' @ CHR 0x1B # ''[32m'' @ [CHR 0xE2, CHR 0x98, CHR 0x85] @ CHR 0x1B # ''[39m ''
       @ CHR 0x1B # ''[32m'' @ CHR 0x1B # ''[1mdev'' @ CHR 0x1B # ''[22m'' @ CHR 0x1B # ''[39m ''
       @ CHR 0x1B # ''[2m[2 '' @ [CHR 0xC2, CHR 0xB7] @ '' current]'' @ CHR 0x1B # ''[22m''
       @ [CHR 0x0A]"
    by (rule trans [OF out lit])
  from 1 2 show ?thesis by (intro conjI)
qed




end
